theory Spec2Isabelle
  imports Complex_Main
begin

section \<open>JavaScript numbers\<close>

text \<open>
  The source is JavaScript (\<^verbatim>\<open>src/js/dag-utils.js\<close>); its numbers are IEEE-754 doubles.
  They are modelled as the reals extended by the three special values that the arithmetic
  of the source can produce: the two infinities and NaN. Finite operations are exact
  (rounding and overflow of doubles are left out), zero carries no sign (a division by zero
  behaves as a division by \<open>+0\<close>), and every operation follows the IEEE rules for the
  special values: a division by zero yields an infinity or NaN and never raises, any
  comparison with NaN is false.

  A finite value of the model is therefore the exact value of the expression; the double
  that the program computes is its rounding as long as the exact values stay inside the
  range of doubles, and an infinity or 0 where they leave it. The statements below that
  give the finite results of \<^verbatim>\<open>shortenLine\<close>, of the bar of \<^verbatim>\<open>drawEdge\<close> and of the round
  trip through \<^verbatim>\<open>areaToHeight\<close> bound the magnitudes of their arguments accordingly.
  Properties that a rounding error of one unit in the last place decides, such as the
  order of two neighbouring values of \<^verbatim>\<open>areaFraction\<close>, are not stated over this model.
\<close>

datatype jsnum = Fin real | PInf | NInf | NaN

fun js_neg :: "jsnum \<Rightarrow> jsnum" where
  "js_neg (Fin a) = Fin (- a)"
| "js_neg PInf = NInf"
| "js_neg NInf = PInf"
| "js_neg NaN = NaN"

fun js_add :: "jsnum \<Rightarrow> jsnum \<Rightarrow> jsnum" where
  "js_add (Fin a) (Fin b) = Fin (a + b)"
| "js_add NaN _ = NaN"
| "js_add _ NaN = NaN"
| "js_add PInf NInf = NaN"
| "js_add NInf PInf = NaN"
| "js_add PInf _ = PInf"
| "js_add _ PInf = PInf"
| "js_add NInf _ = NInf"
| "js_add _ NInf = NInf"

definition js_sub :: "jsnum \<Rightarrow> jsnum \<Rightarrow> jsnum" where
  "js_sub a b = js_add a (js_neg b)"

fun js_mul :: "jsnum \<Rightarrow> jsnum \<Rightarrow> jsnum" where
  "js_mul (Fin a) (Fin b) = Fin (a * b)"
| "js_mul NaN _ = NaN"
| "js_mul _ NaN = NaN"
| "js_mul (Fin a) PInf = (if a = 0 then NaN else if 0 < a then PInf else NInf)"
| "js_mul (Fin a) NInf = (if a = 0 then NaN else if 0 < a then NInf else PInf)"
| "js_mul PInf (Fin b) = (if b = 0 then NaN else if 0 < b then PInf else NInf)"
| "js_mul NInf (Fin b) = (if b = 0 then NaN else if 0 < b then NInf else PInf)"
| "js_mul PInf PInf = PInf"
| "js_mul PInf NInf = NInf"
| "js_mul NInf PInf = NInf"
| "js_mul NInf NInf = PInf"

fun js_div :: "jsnum \<Rightarrow> jsnum \<Rightarrow> jsnum" where
  "js_div (Fin a) (Fin b) =
     (if b = 0 then (if a = 0 then NaN else if 0 < a then PInf else NInf) else Fin (a / b))"
| "js_div NaN _ = NaN"
| "js_div _ NaN = NaN"
| "js_div (Fin a) _ = Fin 0"
| "js_div PInf (Fin b) = (if 0 \<le> b then PInf else NInf)"
| "js_div NInf (Fin b) = (if 0 \<le> b then NInf else PInf)"
| "js_div _ _ = NaN"

text \<open>\<^verbatim>\<open>Math.sqrt\<close>, \<^verbatim>\<open>Math.asin\<close> and \<^verbatim>\<open>Math.min\<close>: NaN outside the domain.\<close>

fun js_sqrt :: "jsnum \<Rightarrow> jsnum" where
  "js_sqrt (Fin a) = (if a < 0 then NaN else Fin (sqrt a))"
| "js_sqrt PInf = PInf"
| "js_sqrt _ = NaN"

fun js_asin :: "jsnum \<Rightarrow> jsnum" where
  "js_asin (Fin a) = (if - 1 \<le> a \<and> a \<le> 1 then Fin (arcsin a) else NaN)"
| "js_asin _ = NaN"

definition js_pi :: jsnum where
  "js_pi = Fin pi"

text \<open>The comparisons \<^verbatim>\<open><\<close>, \<^verbatim>\<open><=\<close>, \<^verbatim>\<open>></\<close>, \<^verbatim>\<open>>=\<close> and \<^verbatim>\<open>===\<close> on numbers.\<close>

fun js_lt :: "jsnum \<Rightarrow> jsnum \<Rightarrow> bool" where
  "js_lt (Fin a) (Fin b) = (a < b)"
| "js_lt NaN _ = False"
| "js_lt _ NaN = False"
| "js_lt _ NInf = False"
| "js_lt PInf _ = False"
| "js_lt _ _ = True"

fun js_eq :: "jsnum \<Rightarrow> jsnum \<Rightarrow> bool" where
  "js_eq (Fin a) (Fin b) = (a = b)"
| "js_eq PInf PInf = True"
| "js_eq NInf NInf = True"
| "js_eq _ _ = False"

definition js_le :: "jsnum \<Rightarrow> jsnum \<Rightarrow> bool" where
  "js_le a b = (js_lt a b \<or> js_eq a b)"

definition js_gt :: "jsnum \<Rightarrow> jsnum \<Rightarrow> bool" where
  "js_gt a b = js_lt b a"

definition js_ge :: "jsnum \<Rightarrow> jsnum \<Rightarrow> bool" where
  "js_ge a b = js_le b a"

fun js_min :: "jsnum \<Rightarrow> jsnum \<Rightarrow> jsnum" where
  "js_min NaN _ = NaN"
| "js_min _ NaN = NaN"
| "js_min a b = (if js_lt b a then b else a)"

section \<open>The drawing surface\<close>

text \<open>
  The source draws through d3 selections: \<^verbatim>\<open>sel.append(tag)\<close> adds a child element to
  \<^verbatim>\<open>sel\<close> and \<^verbatim>\<open>.attr(name, value)\<close> sets an attribute of it. An element is its tag, its
  attributes in the order they are set, and its children in the order they are appended;
  a selection is the list of children appended so far, returned updated.
\<close>

datatype attr_value = NumV jsnum | StrV string

datatype element = Element string "(string \<times> attr_value) list" "element list"

type_synonym selection = "element list"

section \<open>Edge geometry\<close>

text \<open>
  The object \<^verbatim>\<open>{x1, y1, x2, y2}\<close> returned by \<^verbatim>\<open>shortenLine\<close>. An omitted argument
  (\<^verbatim>\<open>undefined\<close>) is \<open>None\<close>.
\<close>

record segment =
  x1 :: jsnum
  y1 :: jsnum
  x2 :: jsnum
  y2 :: jsnum

definition shortenLine ::
  "jsnum \<Rightarrow> jsnum \<Rightarrow> jsnum \<Rightarrow> jsnum \<Rightarrow> jsnum \<Rightarrow> jsnum option \<Rightarrow> segment" where
  "shortenLine xa ya xb yb padStart padEndArg =
     (let padEnd = (case padEndArg of None \<Rightarrow> padStart | Some p \<Rightarrow> p);
          dx = js_sub xb xa;
          dy = js_sub yb ya;
          len = js_sqrt (js_add (js_mul dx dx) (js_mul dy dy))
      in \<lparr> x1 = js_add xa (js_mul dx (js_div padStart len)),
           y1 = js_add ya (js_mul dy (js_div padStart len)),
           x2 = js_sub xb (js_mul dx (js_div padEnd len)),
           y2 = js_sub yb (js_mul dy (js_div padEnd len)) \<rparr>)"

text \<open>
  An edge \<^verbatim>\<open>{from: {x, y}, to: {x, y}, strength, blocked}\<close>; the fields of a point are
  named \<open>px\<close> and \<open>py\<close>, those of the edge \<open>efrom\<close> and \<open>eto\<close>.
\<close>

record point =
  px :: jsnum
  py :: jsnum

record edge =
  efrom :: point
  eto :: point
  strength :: jsnum
  blocked :: bool

definition drawEdge :: "selection \<Rightarrow> edge \<Rightarrow> jsnum \<Rightarrow> selection" where
  "drawEdge svg e nodeRadius =
     (if js_eq (strength e) (Fin 0) then svg
      else
        let arrowLen = Fin 18;
            gap = Fin 6;
            line = shortenLine (px (efrom e)) (py (efrom e)) (px (eto e)) (py (eto e))
                     (js_add nodeRadius gap)
                     (Some (js_add (js_add nodeRadius gap) arrowLen));
            strokeWidth = js_add (Fin 2) (js_mul (strength e) (Fin 5));
            svg1 = svg @
              [Element ''line''
                 [(''x1'', NumV (x1 line)), (''y1'', NumV (y1 line)),
                  (''x2'', NumV (x2 line)), (''y2'', NumV (y2 line)),
                  (''stroke'', StrV (if blocked e then ''#ccc'' else ''#666'')),
                  (''stroke-width'', NumV strokeWidth),
                  (''stroke-dasharray'', StrV (if blocked e then ''8 6'' else ''none'')),
                  (''marker-end'',
                     StrV (''url(#arrow-'' @ (if blocked e then ''blocked'' else ''active'') @ '')'')),
                  (''opacity'', NumV (if blocked e then Fin (4 / 10) else Fin (85 / 100)))]
                 []]
        in if blocked e then
             let midX = js_div (js_add (x1 line) (x2 line)) (Fin 2);
                 midY = js_div (js_add (y1 line) (y2 line)) (Fin 2);
                 dx = js_sub (x2 line) (x1 line);
                 dy = js_sub (y2 line) (y1 line);
                 len = js_sqrt (js_add (js_mul dx dx) (js_mul dy dy));
                 pvx = js_div (js_neg dy) len;
                 pvy = js_div dx len;
                 barLen = Fin 20
             in svg1 @
               [Element ''line''
                  [(''x1'', NumV (js_sub midX (js_mul pvx barLen))),
                   (''y1'', NumV (js_sub midY (js_mul pvy barLen))),
                   (''x2'', NumV (js_add midX (js_mul pvx barLen))),
                   (''y2'', NumV (js_add midY (js_mul pvy barLen))),
                   (''stroke'', StrV ''#E74C3C''),
                   (''stroke-width'', NumV (Fin (35 / 10))),
                   (''stroke-linecap'', StrV ''round'')]
                  []]
           else svg1)"

section \<open>Area-proportional circle fills\<close>

definition areaFraction :: "jsnum \<Rightarrow> jsnum \<Rightarrow> jsnum" where
  "areaFraction h r =
     (if js_le h (Fin 0) then Fin 0
      else if js_ge h (js_mul (Fin 2) r) then Fin 1
      else
        let u = js_sub (js_div h r) (Fin 1)
        in js_add (Fin (1 / 2))
             (js_div (js_add (js_asin u) (js_mul u (js_sqrt (js_sub (Fin 1) (js_mul u u)))))
                     js_pi))"

text \<open>
  The body of the bisection loop of \<^verbatim>\<open>areaToHeight\<close> on the pair \<open>(lo, hi)\<close>, and the
  loop \<^verbatim>\<open>for (let i = 0; i < 30; i++)\<close> from the counter value \<open>i\<close>. The parameter
  \<^verbatim>\<open>frac\<close> is written \<open>fr\<close>.
\<close>

definition bisectBody :: "jsnum \<Rightarrow> jsnum \<Rightarrow> jsnum \<times> jsnum \<Rightarrow> jsnum \<times> jsnum" where
  "bisectBody fr r s =
     (let lo = fst s; hi = snd s;
          mid = js_div (js_add lo hi) (Fin 2)
      in if js_lt (areaFraction mid r) fr then (mid, hi) else (lo, mid))"

function bisectLoop :: "nat \<Rightarrow> jsnum \<Rightarrow> jsnum \<Rightarrow> jsnum \<times> jsnum \<Rightarrow> jsnum \<times> jsnum" where
  "bisectLoop i fr r s =
     (if i < 30 then bisectLoop (i + 1) fr r (bisectBody fr r s) else s)"
  by pat_completeness auto
termination
  by (relation "measure (\<lambda>(i, fr, r, s). 30 - i)") auto

definition areaToHeight :: "jsnum \<Rightarrow> jsnum \<Rightarrow> jsnum" where
  "areaToHeight fr r =
     (if js_le fr (Fin 0) then Fin 0
      else if js_ge fr (Fin 1) then js_mul (Fin 2) r
      else
        let s = bisectLoop 0 fr r (Fin 0, js_mul (Fin 2) r)
        in js_div (js_add (fst s) (snd s)) (Fin 2))"

section \<open>Nodes with stacked bands\<close>

text \<open>
  A band \<^verbatim>\<open>{prop, fill}\<close> (its proportion is the field \<open>bprop\<close>) and the argument \<^verbatim>\<open>bands = {bottomUp: [...], topDown: [...]}\<close>,
  either list of which may be absent. The state of a band loop is the running
  \<^verbatim>\<open>cumFrac\<close>, \<^verbatim>\<open>prev\<close> and the children of the clipped group appended (\<open>grp\<close>) so far.
\<close>

record band =
  bprop :: jsnum
  fill :: string

record bands =
  bottomUp :: "band list option"
  topDown :: "band list option"

type_synonym loop_state = "jsnum \<times> jsnum \<times> element list"

fun primaryLoop ::
  "bool \<Rightarrow> jsnum \<Rightarrow> jsnum \<Rightarrow> jsnum \<Rightarrow> band list \<Rightarrow> loop_state \<Rightarrow> loop_state" where
  "primaryLoop horiz cx cy r [] st = st"
| "primaryLoop horiz cx cy r (b # rest) (cumFrac, prev, grp) =
     (if js_gt (bprop b) (Fin (1 / 1000)) then
        let cumFrac' = js_add cumFrac (bprop b);
            extent = areaToHeight (js_min cumFrac' (Fin 1)) r;
            size = js_sub extent prev;
            diam = js_mul r (Fin 2);
            grp' =
              (if js_gt size (Fin (1 / 2)) then
                 (if horiz then
                    grp @ [Element ''rect''
                      [(''x'', NumV (js_add (js_sub cx r) prev)), (''y'', NumV (js_sub cy r)),
                       (''width'', NumV size), (''height'', NumV diam),
                       (''fill'', StrV (fill b))] []]
                  else
                    grp @ [Element ''rect''
                      [(''x'', NumV (js_sub cx r)), (''y'', NumV (js_sub (js_add cy r) extent)),
                       (''width'', NumV diam), (''height'', NumV size),
                       (''fill'', StrV (fill b))] []])
               else grp)
        in primaryLoop horiz cx cy r rest (cumFrac', extent, grp')
      else primaryLoop horiz cx cy r rest (cumFrac, prev, grp))"

fun secondaryLoop ::
  "bool \<Rightarrow> jsnum \<Rightarrow> jsnum \<Rightarrow> jsnum \<Rightarrow> band list \<Rightarrow> loop_state \<Rightarrow> loop_state" where
  "secondaryLoop horiz cx cy r [] st = st"
| "secondaryLoop horiz cx cy r (b # rest) (cumFrac, prev, grp) =
     (if js_gt (bprop b) (Fin (1 / 1000)) then
        let cumFrac' = js_add cumFrac (bprop b);
            extent = areaToHeight (js_min cumFrac' (Fin 1)) r;
            size = js_sub extent prev;
            diam = js_mul r (Fin 2);
            grp' =
              (if js_gt size (Fin (1 / 2)) then
                 (if horiz then
                    grp @ [Element ''rect''
                      [(''x'', NumV (js_sub (js_add cx r) extent)), (''y'', NumV (js_sub cy r)),
                       (''width'', NumV size), (''height'', NumV diam),
                       (''fill'', StrV (fill b))] []]
                  else
                    grp @ [Element ''rect''
                      [(''x'', NumV (js_sub cx r)), (''y'', NumV (js_add (js_sub cy r) prev)),
                       (''width'', NumV diam), (''height'', NumV size),
                       (''fill'', StrV (fill b))] []])
               else grp)
        in secondaryLoop horiz cx cy r rest (cumFrac', extent, grp')
      else secondaryLoop horiz cx cy r rest (cumFrac, prev, grp))"

text \<open>
  \<^verbatim>\<open>drawNode\<close>. Reading a property of \<^verbatim>\<open>bands\<close> when \<^verbatim>\<open>bands\<close> itself is
  \<^verbatim>\<open>undefined\<close> throws a TypeError, after the group and its base fill have been appended;
  this is the only statement of the function that can throw on numbers, strings and lists.
  The result is \<open>Inl\<close> of the error with the selection as it is at the throw, or \<open>Inr\<close> of
  the selection after the outline has been drawn. An absent \<^verbatim>\<open>orientation\<close> or
  \<^verbatim>\<open>baseColor\<close> is \<open>None\<close>; \<^verbatim>\<open>baseColor || "#bbb"\<close> also replaces the empty string.
\<close>

datatype js_error = TypeError

definition drawNode ::
  "selection \<Rightarrow> jsnum \<Rightarrow> jsnum \<Rightarrow> jsnum \<Rightarrow> string \<Rightarrow> bands option \<Rightarrow> string option
     \<Rightarrow> string option \<Rightarrow> (js_error \<times> selection) + selection" where
  "drawNode svg cx cy nodeRadius clipId bandsArg orientation baseColor =
     (let r = nodeRadius;
          diam = js_mul r (Fin 2);
          horiz = (orientation = Some ''horizontal'');
          clip = [(''clip-path'', StrV (''url(#'' @ clipId @ '')''))];
          grp0 =
            [Element ''rect''
               [(''x'', NumV (js_sub cx r)), (''y'', NumV (js_sub cy r)),
                (''width'', NumV diam), (''height'', NumV diam),
                (''fill'', StrV (case baseColor of None \<Rightarrow> ''#bbb''
                                  | Some c \<Rightarrow> if c = [] then ''#bbb'' else c))] []]
      in case bandsArg of
           None \<Rightarrow> Inl (TypeError, svg @ [Element ''g'' clip grp0])
         | Some bs \<Rightarrow>
             let st1 = primaryLoop horiz cx cy r
                         (case bottomUp bs of None \<Rightarrow> [] | Some l \<Rightarrow> l) (Fin 0, Fin 0, grp0);
                 st2 = secondaryLoop horiz cx cy r
                         (case topDown bs of None \<Rightarrow> [] | Some l \<Rightarrow> l)
                         (Fin 0, Fin 0, snd (snd st1))
             in Inr (svg @
                  [Element ''g'' clip (snd (snd st2)),
                   Element ''circle''
                     [(''cx'', NumV cx), (''cy'', NumV cy), (''r'', NumV r),
                      (''fill'', StrV ''none''), (''stroke'', StrV ''#333''),
                      (''stroke-width'', NumV (Fin 2))] []]))"

section \<open>Closed forms over the reals\<close>

text \<open>
  Auxiliary functions of the proofs, not of the source: the antiderivative
  \<open>arcsin u + u * sqrt (1 - u\<^sup>2)\<close> of \<open>2 * sqrt (1 - u\<^sup>2)\<close>, the value of
  \<^verbatim>\<open>areaFraction\<close> on finite arguments, the clamp of \<open>u\<close> to \<open>[-1, 1]\<close>, and the power
  \<open>(1 + x) * sqrt (1 + x)\<close> that bounds the antiderivative near \<open>-1\<close>.
\<close>

definition segArea :: "real \<Rightarrow> real" where
  "segArea u = arcsin u + u * sqrt (1 - u\<^sup>2)"

definition areaR :: "real \<Rightarrow> real \<Rightarrow> real" where
  "areaR h r = (if h \<le> 0 then 0 else if 2 * r \<le> h then 1 else 1 / 2 + segArea (h / r - 1) / pi)"

definition clampU :: "real \<Rightarrow> real" where
  "clampU u = max (- 1) (min 1 u)"

definition pw :: "real \<Rightarrow> real" where
  "pw x = (1 + x) * sqrt (1 + x)"

section \<open>Arithmetic on finite numbers\<close>

lemma js_sub_Fin [simp]: "js_sub (Fin a) (Fin b) = Fin (a - b)"
  by (simp add: js_sub_def)

lemma js_le_Fin [simp]: "js_le (Fin a) (Fin b) = (a \<le> b)"
  by (auto simp: js_le_def)

lemma js_gt_Fin [simp]: "js_gt (Fin a) (Fin b) = (b < a)"
  by (simp add: js_gt_def)

lemma js_ge_Fin [simp]: "js_ge (Fin a) (Fin b) = (b \<le> a)"
  by (simp add: js_ge_def)

lemma js_min_Fin [simp]: "js_min (Fin a) (Fin b) = Fin (min a b)"
  by (simp add: min_def)

section \<open>The antiderivative of the chord length\<close>

text \<open>
  \<open>segArea\<close> has the derivative \<open>2 * sqrt (1 - u\<^sup>2)\<close> inside \<open>(-1, 1)\<close> and is continuous on
  \<open>[-1, 1]\<close>; by the mean value theorem it is non-decreasing there and grows by at most
  twice the growth of its argument.
\<close>

lemma segArea_deriv:
  assumes "- 1 < z" "z < 1"
  shows "(segArea has_real_derivative 2 * sqrt (1 - z\<^sup>2)) (at z)"
proof -
  have z2: "z\<^sup>2 < 1" using assms by (simp add: abs_square_less_1 abs_less_iff)
  then have pos: "0 < 1 - z\<^sup>2" by simp
  have s: "sqrt (1 - z\<^sup>2) * sqrt (1 - z\<^sup>2) = 1 - z\<^sup>2" using pos by simp
  have spos: "0 < sqrt (1 - z\<^sup>2)" using pos by simp
  have d: "((\<lambda>u. arcsin u + u * sqrt (1 - u\<^sup>2)) has_real_derivative
          inverse (sqrt (1 - z\<^sup>2)) + (1 * sqrt (1 - z\<^sup>2) + z * ((0 - 2 * z) * (inverse (sqrt (1 - z\<^sup>2)) / 2)))) (at z)"
    using assms pos by (auto intro!: derivative_eq_intros simp: power2_eq_square)
  have e: "inverse (sqrt (1 - z\<^sup>2)) + (1 * sqrt (1 - z\<^sup>2) + z * ((0 - 2 * z) * (inverse (sqrt (1 - z\<^sup>2)) / 2)))
        = 2 * sqrt (1 - z\<^sup>2)"
  proof -
    define t where "t = sqrt (1 - z\<^sup>2)"
    have t: "0 < t" "z\<^sup>2 = 1 - t * t" using spos s by (simp_all add: t_def)
    have "inverse t + (1 * t + z * ((0 - 2 * z) * (inverse t / 2))) = (1 - z\<^sup>2) / t + t"
      using t(1) by (simp add: field_simps power2_eq_square)
    also have "\<dots> = 2 * t" using t by (simp add: field_simps)
    finally show ?thesis unfolding t_def .
  qed
  have "segArea = (\<lambda>u. arcsin u + u * sqrt (1 - u\<^sup>2))"
    by (rule ext) (simp add: segArea_def)
  then show ?thesis using d[unfolded e] by simp
qed

lemma segArea_cont: "continuous_on {- 1 .. 1} segArea"
  unfolding segArea_def
  by (intro continuous_intros continuous_on_arcsin') auto

lemma segArea_mvt:
  assumes "- 1 \<le> a" "a < b" "b \<le> 1"
  shows "\<exists>z. a < z \<and> z < b \<and> segArea b - segArea a = (b - a) * (2 * sqrt (1 - z\<^sup>2))"
proof -
  have c: "continuous_on {a .. b} segArea"
    using segArea_cont assms by (rule_tac continuous_on_subset) auto
  have d: "\<And>x. a < x \<Longrightarrow> x < b \<Longrightarrow> segArea differentiable (at x)"
    using assms segArea_deriv by (meson real_differentiable_def less_le_trans le_less_trans)
  obtain l z where z: "a < z" "z < b" "(segArea has_real_derivative l) (at z)"
     "segArea b - segArea a = (b - a) * l"
    using MVT[OF assms(2) c d] by blast
  have "(segArea has_real_derivative 2 * sqrt (1 - z\<^sup>2)) (at z)"
    using z assms by (intro segArea_deriv) auto
  then have "l = 2 * sqrt (1 - z\<^sup>2)" using z(3) DERIV_unique by blast
  then show ?thesis using z by blast
qed

lemma segArea_mono:
  assumes "- 1 \<le> a" "a \<le> b" "b \<le> 1"
  shows "segArea a \<le> segArea b"
proof (cases "a = b")
  case False
  then have "a < b" using assms by simp
  from segArea_mvt[OF assms(1) this assms(3)] obtain z where
    z: "a < z" "z < b" "segArea b - segArea a = (b - a) * (2 * sqrt (1 - z\<^sup>2))" by blast
  have "z\<^sup>2 \<le> 1" using z assms by (simp add: abs_square_le_1 abs_le_iff)
  then have "0 \<le> (b - a) * (2 * sqrt (1 - z\<^sup>2))" using \<open>a < b\<close> by simp
  then show ?thesis using z by linarith
qed simp

lemma segArea_lip:
  assumes "- 1 \<le> a" "a \<le> b" "b \<le> 1"
  shows "segArea b - segArea a \<le> 2 * (b - a)"
proof (cases "a = b")
  case False
  then have ab: "a < b" using assms by simp
  from segArea_mvt[OF assms(1) this assms(3)] obtain z where
    z: "segArea b - segArea a = (b - a) * (2 * sqrt (1 - z\<^sup>2))" by blast
  have "sqrt (1 - z\<^sup>2) \<le> 1" by (simp add: real_sqrt_le_1_iff) 
  then have "(b - a) * (2 * sqrt (1 - z\<^sup>2)) \<le> (b - a) * 2"
    using ab by (intro mult_left_mono) auto
  then show ?thesis using z by linarith
qed simp

section \<open>The area fraction on finite arguments\<close>

lemma interior_u:
  fixes r h :: real
  assumes "0 < r" "0 < h" "h < 2 * r"
  shows "- 1 < h / r - 1" "h / r - 1 < 1"
  using assms by (simp_all add: field_simps)

lemma sq_le_1: "- 1 \<le> (u::real) \<Longrightarrow> u \<le> 1 \<Longrightarrow> u * u \<le> 1"
  using abs_square_le_1[of u] by (simp add: power2_eq_square abs_le_iff)

lemma areaFraction_Fin:
  assumes "0 < r"
  shows "areaFraction (Fin h) (Fin r) = Fin (areaR h r)"
proof -
  consider "h \<le> 0" | "0 < h" "2 * r \<le> h" | "0 < h" "h < 2 * r" by linarith
  then show ?thesis
  proof cases
    case 1
    then show ?thesis by (simp add: areaFraction_def areaR_def)
  next
    case 2
    then show ?thesis by (simp add: areaFraction_def areaR_def)
  next
    case 3
    have u: "- 1 < h / r - 1" "h / r - 1 < 1" using interior_u[OF assms 3] by simp_all
    then have "(h / r - 1) * (h / r - 1) \<le> 1" by (intro sq_le_1) simp_all
    then have nn: "\<not> 1 - (h / r - 1) * (h / r - 1) < 0" by simp
    show ?thesis
      using 3 assms u nn
      by (simp add: areaFraction_def areaR_def segArea_def js_pi_def power2_eq_square Let_def)
  qed
qed

lemma segArea_m1 [simp]: "segArea (- 1) = - pi / 2"
  by (simp add: segArea_def)

lemma segArea_1 [simp]: "segArea 1 = pi / 2"
  by (simp add: segArea_def)

lemma segArea_0 [simp]: "segArea 0 = 0"
  by (simp add: segArea_def)

lemma areaR_clamp:
  assumes "0 < r"
  shows "areaR h r = 1 / 2 + segArea (clampU (h / r - 1)) / pi"
proof -
  consider "h \<le> 0" | "0 < h" "2 * r \<le> h" | "0 < h" "h < 2 * r" by linarith
  then show ?thesis
  proof cases
    case 1
    then have "h / r - 1 \<le> - 1" using assms by (simp add: field_simps)
    then have "clampU (h / r - 1) = - 1" by (simp add: clampU_def)
    then show ?thesis using 1 by (simp add: areaR_def)
  next
    case 2
    then have "1 \<le> h / r - 1" using assms by (simp add: field_simps)
    then have "clampU (h / r - 1) = 1" by (simp add: clampU_def)
    then show ?thesis using 2 by (simp add: areaR_def)
  next
    case 3
    have "clampU (h / r - 1) = h / r - 1" using interior_u[OF assms 3] by (simp add: clampU_def)
    then show ?thesis using 3 by (simp add: areaR_def)
  qed
qed

lemma clampU_range: "- 1 \<le> clampU u" "clampU u \<le> 1"
  by (simp_all add: clampU_def)

lemma clampU_mono: "u \<le> v \<Longrightarrow> clampU u \<le> clampU v"
  by (simp add: clampU_def max_def min_def)

lemma clampU_lip: "u \<le> v \<Longrightarrow> clampU v - clampU u \<le> v - u"
  by (simp add: clampU_def max_def min_def)

lemma areaR_mono:
  assumes "0 < r" "h1 \<le> h2"
  shows "areaR h1 r \<le> areaR h2 r"
proof -
  have "h1 / r - 1 \<le> h2 / r - 1" using assms by (simp add: divide_right_mono)
  then have "segArea (clampU (h1 / r - 1)) \<le> segArea (clampU (h2 / r - 1))"
    by (intro segArea_mono clampU_range clampU_mono)
  then show ?thesis using areaR_clamp[OF assms(1)] by (simp add: divide_right_mono)
qed

lemma areaR_lip:
  assumes "0 < r" "h1 \<le> h2"
  shows "areaR h2 r - areaR h1 r \<le> 2 * (h2 - h1) / (pi * r)"
proof -
  let ?u1 = "h1 / r - 1" and ?u2 = "h2 / r - 1"
  have le: "?u1 \<le> ?u2" using assms by (simp add: divide_right_mono)
  have "segArea (clampU ?u2) - segArea (clampU ?u1) \<le> 2 * (clampU ?u2 - clampU ?u1)"
    by (intro segArea_lip clampU_range clampU_mono le)
  also have "\<dots> \<le> 2 * (?u2 - ?u1)" using clampU_lip[OF le] by simp
  also have "\<dots> = 2 * (h2 - h1) / r" by (simp add: diff_divide_distrib)
  finally have "segArea (clampU ?u2) - segArea (clampU ?u1) \<le> 2 * (h2 - h1) / r" .
  then have "(segArea (clampU ?u2) - segArea (clampU ?u1)) / pi \<le> 2 * (h2 - h1) / r / pi"
    by (intro divide_right_mono) simp_all
  moreover have "areaR h2 r - areaR h1 r = (segArea (clampU ?u2) - segArea (clampU ?u1)) / pi"
    using areaR_clamp[OF assms(1)] by (simp add: diff_divide_distrib)
  ultimately show ?thesis by (simp add: mult.commute)
qed

lemma areaR_range: "0 < r \<Longrightarrow> 0 \<le> areaR h r \<and> areaR h r \<le> 1"
  using areaR_mono[of r 0 h] areaR_mono[of r h 0] areaR_mono[of r h "2 * r"] areaR_mono[of r "2 * r" h]
  by (cases "h \<le> 0"; cases "2 * r \<le> h") (simp_all add: areaR_def)

section \<open>The bisection loop\<close>

declare bisectLoop.simps [simp del]

lemma bisectLoop_funpow:
  "i \<le> 30 \<Longrightarrow> bisectLoop i fr r s = (bisectBody fr r ^^ (30 - i)) s"
proof (induction i fr r s rule: bisectLoop.induct)
  case (1 i fr r s)
  show ?case
  proof (cases "i < 30")
    case True
    then have "30 - i = Suc (30 - (i + 1))" by simp
    then have "(bisectBody fr r ^^ (30 - i)) s
                 = (bisectBody fr r ^^ (30 - (i + 1))) (bisectBody fr r s)"
      by (simp only: funpow_Suc_right o_apply)
    moreover have "bisectLoop i fr r s = bisectLoop (i + 1) fr r (bisectBody fr r s)"
      using True by (subst bisectLoop.simps) simp
    ultimately show ?thesis using "1.IH"[OF True] True by simp
  next
    case False
    with "1.prems" have "i = 30" by simp
    then show ?thesis by (subst bisectLoop.simps) simp
  qed
qed

lemma bisectBody_Fin:
  "bisectBody fr r (Fin l, Fin h) =
     (if js_lt (areaFraction (Fin ((l + h) / 2)) r) fr then (Fin ((l + h) / 2), Fin h)
      else (Fin l, Fin ((l + h) / 2)))"
  by (simp add: bisectBody_def Let_def)

lemma bisect_bracket:
  assumes "l \<le> h"
  shows "\<exists>l' h'. (bisectBody fr r ^^ n) (Fin l, Fin h) = (Fin l', Fin h')
            \<and> l \<le> l' \<and> l' \<le> h' \<and> h' \<le> h"
proof (induction n)
  case 0
  then show ?case using assms by simp
next
  case (Suc n)
  then obtain l' h' where s: "(bisectBody fr r ^^ n) (Fin l, Fin h) = (Fin l', Fin h')"
    and b: "l \<le> l'" "l' \<le> h'" "h' \<le> h" by blast
  have m: "l' \<le> (l' + h') / 2" "(l' + h') / 2 \<le> h'" using b by simp_all
  show ?case
  proof (cases "js_lt (areaFraction (Fin ((l' + h') / 2)) r) fr")
    case True
    then have "(bisectBody fr r ^^ Suc n) (Fin l, Fin h) = (Fin ((l' + h') / 2), Fin h')"
      by (simp add: s bisectBody_Fin)
    then show ?thesis using b m by (intro exI[of _ "(l' + h') / 2"] exI[of _ h']) simp
  next
    case False
    then have "(bisectBody fr r ^^ Suc n) (Fin l, Fin h) = (Fin l', Fin ((l' + h') / 2))"
      by (simp add: s bisectBody_Fin)
    then show ?thesis using b m by (intro exI[of _ l'] exI[of _ "(l' + h') / 2"]) simp
  qed
qed

lemma bisect_inv:
  assumes r: "0 < r" and lh: "l \<le> h" and fl: "areaR l r < f" and fh: "f \<le> areaR h r"
  shows "\<exists>l' h'. (bisectBody (Fin f) (Fin r) ^^ n) (Fin l, Fin h) = (Fin l', Fin h')
            \<and> l \<le> l' \<and> l' \<le> h' \<and> h' \<le> h \<and> h' - l' = (h - l) / 2 ^ n
            \<and> areaR l' r < f \<and> f \<le> areaR h' r"
proof (induction n)
  case 0
  then show ?case using assms by simp
next
  case (Suc n)
  then obtain l' h' where
    s: "(bisectBody (Fin f) (Fin r) ^^ n) (Fin l, Fin h) = (Fin l', Fin h')"
    and b: "l \<le> l'" "l' \<le> h'" "h' \<le> h" and w: "h' - l' = (h - l) / 2 ^ n"
    and a: "areaR l' r < f" "f \<le> areaR h' r" by blast
  let ?m = "(l' + h') / 2"
  have m: "l' \<le> ?m" "?m \<le> h'" using b by simp_all
  have w1: "h' - ?m = (h - l) / 2 ^ Suc n" "?m - l' = (h - l) / 2 ^ Suc n"
    using w by (simp_all add: field_simps)
  show ?case
  proof (cases "areaR ?m r < f")
    case True
    then have e: "(bisectBody (Fin f) (Fin r) ^^ Suc n) (Fin l, Fin h) = (Fin ?m, Fin h')"
      by (simp add: s bisectBody_Fin areaFraction_Fin[OF r])
    have x: "l \<le> ?m" using m b by linarith
    show ?thesis using e x m(2) b(3) w1(1) True a(2) by blast
  next
    case False
    then have e: "(bisectBody (Fin f) (Fin r) ^^ Suc n) (Fin l, Fin h) = (Fin l', Fin ?m)"
      by (simp add: s bisectBody_Fin areaFraction_Fin[OF r])
    have x: "?m \<le> h" "f \<le> areaR ?m r" using m b False by linarith+
    show ?thesis using e b(1) m(1) x(1) w1(2) a(1) x(2) by blast
  qed
qed

lemma areaToHeight_interior:
  assumes "0 < f" "f < 1"
  shows "areaToHeight (Fin f) r =
           (let s = (bisectBody (Fin f) r ^^ 30) (Fin 0, js_mul (Fin 2) r)
            in js_div (js_add (fst s) (snd s)) (Fin 2))"
  using assms by (simp add: areaToHeight_def bisectLoop_funpow)

lemma areaR_0 [simp]: "areaR 0 r = 0"
  by (simp add: areaR_def)

lemma areaR_2r [simp]: "0 < r \<Longrightarrow> areaR (2 * r) r = 1"
  by (simp add: areaR_def)

lemma areaToHeight_bracket:
  assumes r: "0 < r" and f: "0 < f" "f < 1"
  shows "\<exists>l h. areaToHeight (Fin f) (Fin r) = Fin ((l + h) / 2)
            \<and> 0 \<le> l \<and> l \<le> h \<and> h \<le> 2 * r \<and> h - l = 2 * r / 2 ^ 30
            \<and> areaR l r < f \<and> f \<le> areaR h r"
proof -
  have "\<exists>l' h'. (bisectBody (Fin f) (Fin r) ^^ 30) (Fin 0, Fin (2 * r)) = (Fin l', Fin h')
            \<and> 0 \<le> l' \<and> l' \<le> h' \<and> h' \<le> 2 * r \<and> h' - l' = (2 * r - 0) / 2 ^ 30
            \<and> areaR l' r < f \<and> f \<le> areaR h' r"
    using r f by (intro bisect_inv) simp_all
  then obtain l h where s: "(bisectBody (Fin f) (Fin r) ^^ 30) (Fin 0, Fin (2 * r)) = (Fin l, Fin h)"
    and p: "0 \<le> l" "l \<le> h" "h \<le> 2 * r" "h - l = 2 * r / 2 ^ 30" "areaR l r < f" "f \<le> areaR h r"
    by auto
  have "areaToHeight (Fin f) (Fin r) = Fin ((l + h) / 2)"
    by (simp add: areaToHeight_interior[OF f] s)
  then show ?thesis using p by blast
qed

section \<open>Properties of the area fraction\<close>

text \<open>
  Claim C2. For every radius \<open>r > 0\<close>, \<^verbatim>\<open>areaFraction(h, r)\<close> returns 0 for every
  \<open>h \<le> 0\<close> (also for \<open>-\<infinity>\<close>), returns 1 for every \<open>h \<ge> 2r\<close> (also for \<open>+\<infinity>\<close>), and for
  every \<open>h\<close> strictly between 0 and \<open>2r\<close> returns
  \<open>0.5 + (asin u + u * sqrt (1 - u\<^sup>2)) / \<pi>\<close> with \<open>u = h / r - 1\<close>: the argument of
  \<^verbatim>\<open>Math.asin\<close> is then inside \<open>[-1, 1]\<close> and that of \<^verbatim>\<open>Math.sqrt\<close> is not negative, so
  no NaN arises. The function saturates at the boundaries; it has no failing branch.
\<close>

theorem areaFraction_cases:
  assumes "0 < r"
  shows "(h \<le> 0 \<longrightarrow> areaFraction (Fin h) (Fin r) = Fin 0)
       \<and> areaFraction NInf (Fin r) = Fin 0
       \<and> (2 * r \<le> h \<longrightarrow> areaFraction (Fin h) (Fin r) = Fin 1)
       \<and> areaFraction PInf (Fin r) = Fin 1
       \<and> (0 < h \<and> h < 2 * r \<longrightarrow>
            areaFraction (Fin h) (Fin r) =
              Fin (1 / 2 + (arcsin (h / r - 1) + (h / r - 1) * sqrt (1 - (h / r - 1)\<^sup>2)) / pi))"
proof (intro conjI impI)
  show "areaFraction NInf (Fin r) = Fin 0"
    by (simp add: areaFraction_def js_le_def)
  show "areaFraction PInf (Fin r) = Fin 1"
    by (simp add: areaFraction_def js_le_def js_ge_def)
next
  assume "h \<le> 0"
  then show "areaFraction (Fin h) (Fin r) = Fin 0"
    by (simp add: areaFraction_def)
next
  assume "2 * r \<le> h"
  then show "areaFraction (Fin h) (Fin r) = Fin 1"
    using assms by (simp add: areaFraction_Fin areaR_def)
next
  assume "0 < h \<and> h < 2 * r"
  then show "areaFraction (Fin h) (Fin r) =
      Fin (1 / 2 + (arcsin (h / r - 1) + (h / r - 1) * sqrt (1 - (h / r - 1)\<^sup>2)) / pi)"
    using assms by (simp add: areaFraction_Fin areaR_def segArea_def)
qed

theorem areaFraction_cases_witness:
  "(0::real) < 2
   \<and> areaFraction (Fin (- 1)) (Fin 2) = Fin 0
   \<and> areaFraction (Fin 5) (Fin 2) = Fin 1
   \<and> areaFraction (Fin 1) (Fin 2) =
        Fin (1 / 2 + (arcsin (1 / 2 - 1) + (1 / 2 - 1) * sqrt (1 - (1 / 2 - 1)\<^sup>2)) / pi)"
  using areaFraction_cases[of 2 "- 1"] areaFraction_cases[of 2 5] areaFraction_cases[of 2 1]
  by simp

section \<open>Properties of the inverse\<close>



subsection \<open>The round trip\<close>

lemma arcsin_lower:
  assumes "- 1 \<le> u" "u \<le> 1"
  shows "sqrt (1 - u\<^sup>2) \<le> arcsin u + pi / 2"
proof -
  have "0 \<le> arcsin u + pi / 2" using arcsin_lbound[OF assms] by simp
  then have "sin (arcsin u + pi / 2) \<le> arcsin u + pi / 2" by (rule sin_x_le_x)
  moreover have "sin (arcsin u + pi / 2) = cos (arcsin u)" by (simp add: sin_add)
  moreover have "cos (arcsin u) = sqrt (1 - u\<^sup>2)" using assms by (rule cos_arcsin)
  ultimately show ?thesis by simp
qed

lemma areaR_lower:
  assumes "0 \<le> h" "h \<le> 1"
  shows "h\<^sup>2 / 4 \<le> areaR h 1"
proof (cases "h = 0")
  case True
  then show ?thesis by simp
next
  case False
  then have h: "0 < h" using assms by simp
  let ?u = "h - 1"
  let ?s = "sqrt (1 - ?u\<^sup>2)"
  have u: "- 1 \<le> ?u" "?u \<le> 1" using assms by simp_all
  have "1 - ?u\<^sup>2 = h * (2 - h)" by (simp add: power2_eq_square algebra_simps)
  moreover have "h * h \<le> h * (2 - h)" using assms by (intro mult_left_mono) simp_all
  ultimately have "sqrt (h * h) \<le> ?s" by (simp only: real_sqrt_le_iff)
  then have s: "h \<le> ?s" using assms by simp
  have "h * h \<le> h * ?s" using s assms by (intro mult_left_mono) simp_all
  also have "\<dots> = ?s + ?u * ?s" by (simp add: algebra_simps)
  also have "\<dots> \<le> (arcsin ?u + pi / 2) + ?u * ?s" using arcsin_lower[OF u] by simp
  finally have b: "h * h \<le> segArea ?u + pi / 2" by (simp add: segArea_def)
  have "areaR h 1 = (segArea ?u + pi / 2) / pi"
    using h assms by (simp add: areaR_def field_simps)
  moreover have "h * h / 4 \<le> (segArea ?u + pi / 2) / pi"
  proof -
    have "h * h / 4 \<le> h * h / pi"
      using pi_less_4 by (intro divide_left_mono) simp_all
    also have "\<dots> \<le> (segArea ?u + pi / 2) / pi" using b by (intro divide_right_mono) simp_all
    finally show ?thesis .
  qed
  ultimately show ?thesis by (simp add: power2_eq_square)
qed

lemma bisect_tiny:
  assumes f: "f \<le> 1 / 2 ^ 62"
  shows "n \<le> 30 \<Longrightarrow> (bisectBody (Fin f) (Fin 1) ^^ n) (Fin 0, Fin 2) = (Fin 0, Fin (2 / 2 ^ n))"
proof (induction n)
  case 0
  then show ?case by simp
next
  case (Suc n)
  then have n: "n \<le> 29" and ih: "(bisectBody (Fin f) (Fin 1) ^^ n) (Fin 0, Fin 2) = (Fin 0, Fin (2 / 2 ^ n))"
    by simp_all
  have p: "(1::real) / 2 ^ n \<le> 1" by (simp add: field_simps)
  have "(1::real) / 2 ^ 29 \<le> 1 / 2 ^ n"
    using n by (intro divide_left_mono power_increasing) simp_all
  then have "((1::real) / 2 ^ 29)\<^sup>2 \<le> (1 / 2 ^ n)\<^sup>2" by (intro power_mono) simp_all
  then have c: "((1::real) / 2 ^ 29)\<^sup>2 / 4 \<le> (1 / 2 ^ n)\<^sup>2 / 4"
    by (intro divide_right_mono) simp_all
  have a: "f \<le> ((1::real) / 2 ^ 29)\<^sup>2 / 4" using f by (simp add: power2_eq_square)
  have "(1 / 2 ^ n)\<^sup>2 / 4 \<le> areaR (1 / 2 ^ n) 1" using p by (intro areaR_lower) simp_all
  then have "\<not> areaR (1 / 2 ^ n) 1 < f" using a c by linarith
  then show ?case
    by (simp add: ih bisectBody_Fin areaFraction_Fin)
qed

lemma pi_ge_3: "3 \<le> pi"
proof -
  have "sin (pi / 6) \<le> pi / 6" by (rule sin_x_le_x) simp
  then show ?thesis by (simp add: sin_30)
qed

lemma pw_deriv:
  assumes "- 1 < z"
  shows "(pw has_real_derivative 3 / 2 * sqrt (1 + z)) (at z)"
proof -
  have p: "0 < 1 + z" using assms by simp
  define t where "t = sqrt (1 + z)"
  have t: "0 < t" "1 + z = t * t" using p by (simp_all add: t_def)
  have d: "((\<lambda>x. (1 + x) * sqrt (1 + x)) has_real_derivative
          (0 + 1) * sqrt (1 + z) + (1 + z) * ((0 + 1) * (inverse (sqrt (1 + z)) / 2))) (at z)"
    using p by (auto intro!: derivative_eq_intros)
  have e: "(0 + 1) * sqrt (1 + z) + (1 + z) * ((0 + 1) * (inverse (sqrt (1 + z)) / 2))
             = 3 / 2 * sqrt (1 + z)"
  proof -
    have "(1 + z) * (inverse t / 2) = t / 2" using t by (simp add: field_simps)
    then show ?thesis unfolding t_def by simp
  qed
  have "pw = (\<lambda>x. (1 + x) * sqrt (1 + x))" by (rule ext) (simp add: pw_def)
  then show ?thesis using d[unfolded e] by simp
qed

lemma pw_cont: "continuous_on {- 1 .. 1} pw"
  unfolding pw_def by (intro continuous_intros)

lemma cmp_mvt:
  fixes c :: real
  assumes "- 1 \<le> a" "a < b" "b \<le> 1"
  shows "\<exists>z. a < z \<and> z < b \<and>
           (segArea b - c * pw b) - (segArea a - c * pw a)
             = (b - a) * (2 * sqrt (1 - z\<^sup>2) - c * (3 / 2 * sqrt (1 + z)))"
proof -
  let ?f = "\<lambda>x. segArea x - c * pw x"
  have "continuous_on {- 1 .. 1} ?f"
    by (intro continuous_intros segArea_cont pw_cont)
  then have cf: "continuous_on {a .. b} ?f"
    using assms by (rule_tac continuous_on_subset) auto
  have dv: "(?f has_real_derivative 2 * sqrt (1 - x\<^sup>2) - c * (3 / 2 * sqrt (1 + x))) (at x)"
    if "a < x" "x < b" for x
  proof -
    have x: "- 1 < x" "x < 1" using that assms by simp_all
    show ?thesis
      by (rule DERIV_diff[OF segArea_deriv[OF x] DERIV_cmult[OF pw_deriv[OF x(1)]]])
  qed
  then have df: "\<And>x. a < x \<Longrightarrow> x < b \<Longrightarrow> ?f differentiable (at x)"
    by (meson real_differentiable_def)
  obtain l z where z: "a < z" "z < b" "(?f has_real_derivative l) (at z)"
     "?f b - ?f a = (b - a) * l"
    using MVT[OF assms(2) cf df] by blast
  have "l = 2 * sqrt (1 - z\<^sup>2) - c * (3 / 2 * sqrt (1 + z))"
    using z(3) dv[OF z(1,2)] DERIV_unique by blast
  then show ?thesis using z by blast
qed

lemma segArea_lower_pw:
  assumes "- 1 \<le> u" "u \<le> 0"
  shows "4 / 3 * pw u \<le> segArea u + pi / 2"
proof (cases "u = - 1")
  case True
  then show ?thesis by (simp add: pw_def)
next
  case False
  then have lt: "- 1 < u" using assms by simp
  from cmp_mvt[of "- 1" u "4 / 3"] lt assms obtain z where
    z: "- 1 < z" "z < u"
      "(segArea u - 4 / 3 * pw u) - (segArea (- 1) - 4 / 3 * pw (- 1))
         = (u - - 1) * (2 * sqrt (1 - z\<^sup>2) - 4 / 3 * (3 / 2 * sqrt (1 + z)))"
    by auto
  have "1 + z \<le> 1 - z\<^sup>2"
  proof -
    have "1 - z\<^sup>2 = (1 + z) * (1 - z)" by (simp add: power2_eq_square algebra_simps)
    moreover have "(1 + z) * 1 \<le> (1 + z) * (1 - z)"
      using z assms by (intro mult_left_mono) simp_all
    ultimately show ?thesis by simp
  qed
  then have "sqrt (1 + z) \<le> sqrt (1 - z\<^sup>2)" by simp
  then have "0 \<le> 2 * sqrt (1 - z\<^sup>2) - 4 / 3 * (3 / 2 * sqrt (1 + z))" by simp
  then have "0 \<le> (u - - 1) * (2 * sqrt (1 - z\<^sup>2) - 4 / 3 * (3 / 2 * sqrt (1 + z)))"
    using lt by (intro mult_nonneg_nonneg) simp_all
  then show ?thesis using z(3) by (simp add: pw_def)
qed

lemma segArea_upper_pw:
  assumes "- 1 \<le> u" "u \<le> 1"
  shows "segArea u + pi / 2 \<le> 4 * sqrt 2 / 3 * pw u"
proof (cases "u = - 1")
  case True
  then show ?thesis by (simp add: pw_def)
next
  case False
  then have lt: "- 1 < u" using assms by simp
  from cmp_mvt[of "- 1" u "4 * sqrt 2 / 3"] lt assms obtain z where
    z: "- 1 < z" "z < u"
      "(segArea u - 4 * sqrt 2 / 3 * pw u) - (segArea (- 1) - 4 * sqrt 2 / 3 * pw (- 1))
         = (u - - 1) * (2 * sqrt (1 - z\<^sup>2) - 4 * sqrt 2 / 3 * (3 / 2 * sqrt (1 + z)))"
    by auto
  have "1 - z\<^sup>2 \<le> 2 * (1 + z)"
  proof -
    have "1 - z\<^sup>2 = (1 + z) * (1 - z)" by (simp add: power2_eq_square algebra_simps)
    moreover have "(1 + z) * (1 - z) \<le> (1 + z) * 2"
      using z assms by (intro mult_left_mono) simp_all
    ultimately show ?thesis by simp
  qed
  then have "sqrt (1 - z\<^sup>2) \<le> sqrt (2 * (1 + z))" by (simp only: real_sqrt_le_iff)
  moreover have "sqrt (2 * (1 + z)) = sqrt 2 * sqrt (1 + z)" by (rule real_sqrt_mult)
  ultimately have "sqrt (1 - z\<^sup>2) \<le> sqrt 2 * sqrt (1 + z)" by linarith
  moreover have "4 * sqrt 2 / 3 * (3 / 2 * sqrt (1 + z)) = 2 * (sqrt 2 * sqrt (1 + z))" by simp
  ultimately have "2 * sqrt (1 - z\<^sup>2) - 4 * sqrt 2 / 3 * (3 / 2 * sqrt (1 + z)) \<le> 0" by linarith
  then have "(u - - 1) * (2 * sqrt (1 - z\<^sup>2) - 4 * sqrt 2 / 3 * (3 / 2 * sqrt (1 + z))) \<le> 0"
    using lt by (intro mult_nonneg_nonpos) simp_all
  then show ?thesis using z(3) by (simp add: pw_def)
qed

lemma segArea_incr_sqrt:
  assumes "- 1 \<le> a" "a \<le> b" "b \<le> 1"
  shows "segArea b - segArea a \<le> 2 * (b - a) * sqrt (2 * (1 + b))"
proof (cases "a = b")
  case False
  then have ab: "a < b" using assms by simp
  from segArea_mvt[OF assms(1) this assms(3)] obtain z where
    z: "a < z" "z < b" "segArea b - segArea a = (b - a) * (2 * sqrt (1 - z\<^sup>2))" by blast
  have "1 - z\<^sup>2 = (1 + z) * (1 - z)" by (simp add: power2_eq_square algebra_simps)
  moreover have "(1 + z) * (1 - z) \<le> (1 + z) * 2"
    using z assms by (intro mult_left_mono) simp_all
  ultimately have "1 - z\<^sup>2 \<le> 2 * (1 + b)" using z by simp
  then have "sqrt (1 - z\<^sup>2) \<le> sqrt (2 * (1 + b))" by (simp only: real_sqrt_le_iff)
  then have i: "(b - a) * (2 * sqrt (1 - z\<^sup>2)) \<le> (b - a) * (2 * sqrt (2 * (1 + b)))"
    using ab by (intro mult_left_mono) simp_all
  have e: "2 * (b - a) * sqrt (2 * (1 + b)) = (b - a) * (2 * sqrt (2 * (1 + b)))"
    by (simp only: mult_ac)
  show ?thesis using z(3) i e by linarith
next
  case True
  then show ?thesis by simp
qed

lemma areaR_closed:
  assumes "0 < r" "0 \<le> h" "h \<le> 2 * r"
  shows "areaR h r = 1 / 2 + segArea (h / r - 1) / pi"
proof -
  have "- 1 \<le> h / r - 1" "h / r - 1 \<le> 1" using assms by (simp_all add: field_simps)
  then have "clampU (h / r - 1) = h / r - 1" by (simp add: clampU_def)
  then show ?thesis using areaR_clamp[OF assms(1), of h] by simp
qed

lemma areaR_pi:
  assumes "0 < r" "0 \<le> h" "h \<le> 2 * r"
  shows "areaR h r = (segArea (h / r - 1) + pi / 2) / pi"
  using areaR_closed[OF assms] by (simp add: add_divide_distrib)

lemma pw_shift: "0 \<le> t \<Longrightarrow> pw (t - 1) = t * sqrt t"
  by (simp add: pw_def)

lemma areaR_lower_pw:
  assumes "0 < r" "0 \<le> h" "h \<le> r"
  shows "4 / 3 * (h / r * sqrt (h / r)) / pi \<le> areaR h r"
proof -
  have u: "- 1 \<le> h / r - 1" "h / r - 1 \<le> 0" using assms by (simp_all add: field_simps)
  have t: "0 \<le> h / r" using assms by simp
  have "4 / 3 * pw (h / r - 1) \<le> segArea (h / r - 1) + pi / 2"
    by (rule segArea_lower_pw[OF u])
  then have "4 / 3 * (h / r * sqrt (h / r)) \<le> segArea (h / r - 1) + pi / 2"
    by (simp only: pw_shift[OF t])
  then have "4 / 3 * (h / r * sqrt (h / r)) / pi \<le> (segArea (h / r - 1) + pi / 2) / pi"
    by (intro divide_right_mono) simp_all
  then show ?thesis using areaR_pi[of r h] assms by simp
qed

lemma areaR_upper_pw:
  assumes "0 < r" "0 \<le> h" "h \<le> 2 * r"
  shows "areaR h r \<le> 4 * sqrt 2 / 3 * (h / r * sqrt (h / r)) / pi"
proof -
  have u: "- 1 \<le> h / r - 1" "h / r - 1 \<le> 1" using assms by (simp_all add: field_simps)
  have t: "0 \<le> h / r" using assms by simp
  have "segArea (h / r - 1) + pi / 2 \<le> 4 * sqrt 2 / 3 * pw (h / r - 1)"
    by (rule segArea_upper_pw[OF u])
  then have "segArea (h / r - 1) + pi / 2 \<le> 4 * sqrt 2 / 3 * (h / r * sqrt (h / r))"
    by (simp only: pw_shift[OF t])
  then have "(segArea (h / r - 1) + pi / 2) / pi \<le> 4 * sqrt 2 / 3 * (h / r * sqrt (h / r)) / pi"
    by (intro divide_right_mono) simp_all
  then show ?thesis using areaR_pi[OF assms] by simp
qed

lemma areaR_incr_sqrt:
  assumes "0 < r" "0 \<le> a" "a \<le> b" "b \<le> 2 * r"
  shows "areaR b r - areaR a r \<le> 2 * ((b - a) / r) * sqrt (2 * (b / r)) / pi"
proof -
  have u: "- 1 \<le> a / r - 1" "a / r - 1 \<le> b / r - 1" "b / r - 1 \<le> 1"
    using assms by (simp_all add: field_simps)
  have "segArea (b / r - 1) - segArea (a / r - 1)
          \<le> 2 * ((b / r - 1) - (a / r - 1)) * sqrt (2 * (1 + (b / r - 1)))"
    by (rule segArea_incr_sqrt[OF u])
  moreover have "(b / r - 1) - (a / r - 1) = (b - a) / r" by (simp add: diff_divide_distrib)
  moreover have "1 + (b / r - 1) = b / r" by simp
  ultimately have "segArea (b / r - 1) - segArea (a / r - 1)
          \<le> 2 * ((b - a) / r) * sqrt (2 * (b / r))" by simp
  then have "(segArea (b / r - 1) - segArea (a / r - 1)) / pi
          \<le> 2 * ((b - a) / r) * sqrt (2 * (b / r)) / pi"
    by (intro divide_right_mono) simp_all
  moreover have "areaR b r - areaR a r = (segArea (b / r - 1) - segArea (a / r - 1)) / pi"
    using areaR_closed[of r a] areaR_closed[of r b] assms by (simp add: diff_divide_distrib)
  ultimately show ?thesis by simp
qed

lemma sqrt2_le: "sqrt 2 \<le> 14143 / 10000"
  by (rule real_le_lsqrt) (simp_all add: power2_eq_square)

lemma half_incr_lip:
  assumes r: "0 < r" and ab: "a \<le> b" "b - a = r / 2 ^ 30"
  shows "areaR b r - areaR a r \<le> 1 / 2 ^ 30"
proof -
  have "areaR b r - areaR a r \<le> 2 * (b - a) / (pi * r)" by (rule areaR_lip[OF r ab(1)])
  also have "\<dots> = 2 / (pi * 2 ^ 30)" using r by (simp add: ab(2))
  also have "\<dots> \<le> 2 / (2 * 2 ^ 30)" using pi_ge_two by (intro divide_left_mono) simp_all
  finally show ?thesis by simp
qed

lemma small_fraction_height:
  assumes r: "0 < r" and h: "0 \<le> h" "h \<le> 2 * r" and f: "6 / 10 ^ 8 \<le> areaR h r"
  shows "19802 / 10 ^ 9 \<le> h / r"
proof (rule ccontr)
  assume "\<not> 19802 / 10 ^ 9 \<le> h / r"
  then have lt: "h / r \<le> 19802 / 10 ^ 9" by simp
  have t0: "0 \<le> h / r" using r h by simp
  have "sqrt (19802 / 10 ^ 9) \<le> 445 / 10 ^ 5"
    by (rule real_le_lsqrt) (simp_all add: power2_eq_square)
  moreover have "sqrt (h / r) \<le> sqrt (19802 / 10 ^ 9)" using lt by (simp only: real_sqrt_le_iff)
  ultimately have s: "sqrt (h / r) \<le> 445 / 10 ^ 5" by linarith
  define q where "q = h / r * sqrt (h / r)"
  define K :: real where "K = 19802 / 10 ^ 9 * (445 / 10 ^ 5)"
  have q0: "0 \<le> q" unfolding q_def using t0 by (intro mult_nonneg_nonneg) simp_all
  have p: "q \<le> K"
    unfolding q_def K_def using lt s t0 by (intro mult_mono) simp_all
  have c: "4 * sqrt 2 / 3 \<le> 4 * (14143 / 10000) / 3" using sqrt2_le by simp
  have "4 * sqrt 2 / 3 * q \<le> 4 * (14143 / 10000) / 3 * K"
    using c p q0 by (intro mult_mono) simp_all
  then have "4 * sqrt 2 / 3 * (h / r * sqrt (h / r)) \<le> 4 * (14143 / 10000) / 3 * (19802 / 10 ^ 9 * (445 / 10 ^ 5))"
    unfolding q_def K_def .
  then have "4 * sqrt 2 / 3 * (h / r * sqrt (h / r)) / pi
               \<le> 4 * (14143 / 10000) / 3 * (19802 / 10 ^ 9 * (445 / 10 ^ 5)) / pi"
    by (intro divide_right_mono) simp_all
  also have "\<dots> \<le> 4 * (14143 / 10000) / 3 * (19802 / 10 ^ 9 * (445 / 10 ^ 5)) / 3"
    using pi_ge_3 by (intro divide_left_mono) simp_all
  also have "\<dots> < 6 / 10 ^ 8" by simp
  finally have "4 * sqrt 2 / 3 * (h / r * sqrt (h / r)) / pi < 6 / 10 ^ 8" .
  then show False using areaR_upper_pw[OF r h] f by linarith
qed

lemma rel_bound_small:
  assumes r: "0 < r"
    and b: "0 \<le> l" "h \<le> 2 * r" "h - l = 2 * r / 2 ^ 30"
    and a: "areaR l r < f" "f \<le> areaR h r"
    and f: "6 / 10 ^ 8 \<le> f" "f < 1 / 2"
  shows "\<bar>areaR ((l + h) / 2) r - f\<bar> \<le> f / 10 ^ 4"
proof -
  let ?m = "(l + h) / 2"
  have lh: "l \<le> h" using b r by simp
  have m: "l \<le> ?m" "?m \<le> h" "?m - l = r / 2 ^ 30" "h - ?m = r / 2 ^ 30"
    using b lh by (simp_all add: field_simps)
  have mono: "areaR l r \<le> areaR ?m r" "areaR ?m r \<le> areaR h r"
    using areaR_mono[OF r] m by simp_all
  have lr: "l \<le> r"
  proof (rule ccontr)
    assume "\<not> l \<le> r"
    then have "areaR r r \<le> areaR l r" by (intro areaR_mono[OF r]) simp
    then show False using a f r by (simp add: areaR_def)
  qed
  define t where "t = l / r"
  have t0: "0 \<le> t" using b r by (simp add: t_def)
  have hr: "h / r = t + 1 / 2 ^ 29" using b(3) r by (simp add: t_def field_simps)
  have h0: "0 \<le> h" using b lh by simp
  have "6 / 10 ^ 8 \<le> areaR h r" using a f by simp
  from small_fraction_height[OF r h0 b(2) this]
  have "19802 / 10 ^ 9 \<le> t + 1 / 2 ^ 29" by (simp only: hr)
  then have tl: "198 / 10 ^ 7 \<le> t" by simp
  have lower: "4 / 3 * (t * sqrt t) / pi < f"
    using areaR_lower_pw[OF r b(1) lr] a(1) by (simp add: t_def)
  have st: "0 \<le> sqrt t" using t0 by simp
  have sq: "sqrt (2 * (t + 1 / 2 ^ 29)) \<le> 14143 / 10000 * sqrt t"
  proof -
    have "2 * (t + 1 / 2 ^ 29) \<le> (14143 / 10000)\<^sup>2 * t" using tl by (simp add: power2_eq_square)
    then have "sqrt (2 * (t + 1 / 2 ^ 29)) \<le> sqrt ((14143 / 10000)\<^sup>2 * t)"
      by (simp only: real_sqrt_le_iff)
    also have "\<dots> = 14143 / 10000 * sqrt t" by (simp add: real_sqrt_mult)
    finally show ?thesis .
  qed
  have incr: "areaR y r - areaR x r \<le> 1 / 10 ^ 4 * (4 / 3 * (t * sqrt t) / pi)"
    if xy: "l \<le> x" "x \<le> y" "y \<le> h" "y - x = r / 2 ^ 30" for x y
  proof -
    have x0: "0 \<le> x" using xy b by simp
    have y2: "y \<le> 2 * r" using xy b by simp
    have yr: "y / r \<le> t + 1 / 2 ^ 29"
      using xy(3) r hr by (metis divide_right_mono less_imp_le)
    have "areaR y r - areaR x r \<le> 2 * ((y - x) / r) * sqrt (2 * (y / r)) / pi"
      by (rule areaR_incr_sqrt[OF r x0 xy(2) y2])
    also have "(y - x) / r = 1 / 2 ^ 30" using r by (simp add: xy(4))
    finally have i1: "areaR y r - areaR x r \<le> 2 * (1 / 2 ^ 30) * sqrt (2 * (y / r)) / pi" .
    have "sqrt (2 * (y / r)) \<le> sqrt (2 * (t + 1 / 2 ^ 29))"
      using yr by (simp only: real_sqrt_le_iff) simp
    then have s2: "sqrt (2 * (y / r)) \<le> 14143 / 10000 * sqrt t" using sq by linarith
    have "2 * (1 / 2 ^ 30) * sqrt (2 * (y / r)) \<le> 2 * (1 / 2 ^ 30) * (14143 / 10000 * sqrt t)"
      using s2 by (intro mult_left_mono) simp_all
    also have "\<dots> = (28286 / 10000 / 2 ^ 30) * sqrt t" by simp
    also have "\<dots> \<le> (1 / 10 ^ 4 * (4 / 3) * t) * sqrt t"
      using tl st by (intro mult_right_mono) simp_all
    finally have "2 * (1 / 2 ^ 30) * sqrt (2 * (y / r)) \<le> 1 / 10 ^ 4 * (4 / 3 * (t * sqrt t))"
      by (simp add: mult.assoc)
    then have "2 * (1 / 2 ^ 30) * sqrt (2 * (y / r)) / pi \<le> 1 / 10 ^ 4 * (4 / 3 * (t * sqrt t)) / pi"
      by (intro divide_right_mono) simp_all
    then show ?thesis using i1 by simp
  qed
  have i1: "areaR ?m r - areaR l r \<le> 1 / 10 ^ 4 * (4 / 3 * (t * sqrt t) / pi)"
    using m by (intro incr) simp_all
  have i2: "areaR h r - areaR ?m r \<le> 1 / 10 ^ 4 * (4 / 3 * (t * sqrt t) / pi)"
    using m by (intro incr) simp_all
  have "\<bar>areaR ?m r - f\<bar> \<le> 1 / 10 ^ 4 * (4 / 3 * (t * sqrt t) / pi)"
    using i1 i2 mono a by linarith
  also have "\<dots> \<le> 1 / 10 ^ 4 * f" using lower by simp
  finally show ?thesis by simp
qed

lemma rel_bound_large:
  assumes r: "0 < r"
    and b: "0 \<le> l" "h \<le> 2 * r" "h - l = 2 * r / 2 ^ 30"
    and a: "areaR l r < f" "f \<le> areaR h r"
  shows "\<bar>areaR ((l + h) / 2) r - f\<bar> \<le> 1 / 2 ^ 30"
proof -
  let ?m = "(l + h) / 2"
  have lh: "l \<le> h" using b r by simp
  have m: "l \<le> ?m" "?m \<le> h" "?m - l = r / 2 ^ 30" "h - ?m = r / 2 ^ 30"
    using b lh by (simp_all add: field_simps)
  have mono: "areaR l r \<le> areaR ?m r" "areaR ?m r \<le> areaR h r"
    using areaR_mono[OF r] m by simp_all
  have "areaR ?m r - areaR l r \<le> 1 / 2 ^ 30" "areaR h r - areaR ?m r \<le> 1 / 2 ^ 30"
    using m by (intro half_incr_lip[OF r]; simp)+
  then show ?thesis using mono a by linarith
qed

text \<open>
  Claim C1, amended. For every fraction \<open>f\<close> in \<open>[0, 1]\<close> and every radius \<open>r\<close> with
  \<open>2\<^sup>-\<^sup>5\<^sup>0\<^sup>0 \<le> r \<le> 2\<^sup>5\<^sup>0\<^sup>0\<close>, \<^verbatim>\<open>areaFraction(areaToHeight(f, r), r)\<close> is a finite number that
  differs from \<open>f\<close> by at most \<open>1e-9\<close> in absolute value, is exactly \<open>f\<close> for \<open>f = 0\<close> and for
  \<open>f = 1\<close>, and is within the relative tolerance \<open>1e-4\<close> of \<open>f\<close> whenever \<open>f \<ge> 6e-8\<close>.
  The result is the midpoint of a bracket of width \<open>2r / 2\<^sup>3\<^sup>0\<close> around the exact inverse;
  over half that width the area fraction grows by at most \<open>2\<^sup>-\<^sup>3\<^sup>0\<close>, and near the edge, where
  it behaves like \<open>(h / r)\<^sup>3\<^sup>/\<^sup>2\<close>, by at most \<open>1e-4\<close> of its own value once that value is
  \<open>6e-8\<close>. The bounds on \<open>r\<close> keep every quantity of the computation inside the range of
  doubles, where the program computes the values of the model up to rounding; every
  fraction that \<^verbatim>\<open>drawNode\<close> passes on is above \<open>0.001\<close>.
\<close>

theorem roundtrip_tolerance:
  assumes "1 / 2 ^ 500 \<le> r" "r \<le> 2 ^ 500" "0 \<le> f" "f \<le> 1"
  shows "\<exists>a. areaFraction (areaToHeight (Fin f) (Fin r)) (Fin r) = Fin a
           \<and> \<bar>a - f\<bar> \<le> 1 / 10 ^ 9
           \<and> (f = 0 \<longrightarrow> a = 0)
           \<and> (f = 1 \<longrightarrow> a = 1)
           \<and> (6 / 10 ^ 8 \<le> f \<longrightarrow> \<bar>a - f\<bar> \<le> f / 10 ^ 4)"
proof -
  have "(0::real) < 1 / 2 ^ 500" by simp
  then have r: "0 < r" using assms(1) by linarith
  consider "f = 0" | "f = 1" | "0 < f" "f < 1" using assms by linarith
  then show ?thesis
  proof cases
    case 1
    then have "areaFraction (areaToHeight (Fin f) (Fin r)) (Fin r) = Fin 0"
      by (simp add: areaToHeight_def areaFraction_def)
    then show ?thesis using 1 by simp
  next
    case 2
    then have "areaFraction (areaToHeight (Fin f) (Fin r)) (Fin r) = Fin 1"
      using r by (simp add: areaToHeight_def areaFraction_Fin)
    then show ?thesis using 2 by simp
  next
    case 3
    from areaToHeight_bracket[OF r 3] obtain l h where
      e: "areaToHeight (Fin f) (Fin r) = Fin ((l + h) / 2)"
      and b: "0 \<le> l" "h \<le> 2 * r" "h - l = 2 * r / 2 ^ 30"
      and a: "areaR l r < f" "f \<le> areaR h r" by blast
    let ?a = "areaR ((l + h) / 2) r"
    have v: "areaFraction (areaToHeight (Fin f) (Fin r)) (Fin r) = Fin ?a"
      by (simp add: e areaFraction_Fin[OF r])
    have ab: "\<bar>?a - f\<bar> \<le> 1 / 2 ^ 30" by (rule rel_bound_large[OF r b a])
    then have abs9: "\<bar>?a - f\<bar> \<le> 1 / 10 ^ 9" by simp
    have rel: "6 / 10 ^ 8 \<le> f \<longrightarrow> \<bar>?a - f\<bar> \<le> f / 10 ^ 4"
    proof
      assume f6: "6 / 10 ^ 8 \<le> f"
      show "\<bar>?a - f\<bar> \<le> f / 10 ^ 4"
      proof (cases "f < 1 / 2")
        case True
        show ?thesis by (rule rel_bound_small[OF r b a f6 True])
      next
        case False
        then have "(1::real) / 2 ^ 30 \<le> f / 10 ^ 4" by simp
        then show ?thesis using ab by linarith
      qed
    qed
    have "f \<noteq> 0" "f \<noteq> 1" using 3 by simp_all
    then show ?thesis using v abs9 rel by blast
  qed
qed

theorem roundtrip_tolerance_witness:
  "(1::real) / 2 ^ 500 \<le> 10 \<and> (10::real) \<le> 2 ^ 500 \<and> (0::real) \<le> 3 / 10 \<and> (3::real) / 10 \<le> 1
   \<and> (\<exists>a. areaFraction (areaToHeight (Fin (3 / 10)) (Fin 10)) (Fin 10) = Fin a
           \<and> \<bar>a - 3 / 10\<bar> \<le> 1 / 10 ^ 9 \<and> \<bar>a - 3 / 10\<bar> \<le> (3 / 10) / 10 ^ 4)
   \<and> areaFraction (areaToHeight (Fin 0) (Fin 10)) (Fin 10) = Fin 0
   \<and> areaFraction (areaToHeight (Fin 1) (Fin 10)) (Fin 10) = Fin 1"
proof -
  have m: "(1::real) / 2 ^ 500 \<le> 10" "(10::real) \<le> 2 ^ 500" by simp_all
  have p: "\<exists>a. areaFraction (areaToHeight (Fin (3 / 10)) (Fin 10)) (Fin 10) = Fin a
           \<and> \<bar>a - 3 / 10\<bar> \<le> 1 / 10 ^ 9 \<and> \<bar>a - 3 / 10\<bar> \<le> (3 / 10) / 10 ^ 4"
    using roundtrip_tolerance[OF m, of "3 / 10"] by auto
  have z: "areaFraction (areaToHeight (Fin 0) (Fin 10)) (Fin 10) = Fin 0"
    using roundtrip_tolerance[OF m, of 0] by auto
  have o: "areaFraction (areaToHeight (Fin 1) (Fin 10)) (Fin 10) = Fin 1"
    using roundtrip_tolerance[OF m, of 1] by auto
  show ?thesis by (intro conjI m p z o) simp_all
qed

text \<open>
  The relative tolerance of claim C1 does not hold for every fraction. For \<open>f = 2\<^sup>-\<^sup>7\<^sup>0\<close> and
  \<open>r = 1\<close> every midpoint of the 30 iterations has an area fraction of at least \<open>f\<close>, the
  result is \<open>2\<^sup>-\<^sup>3\<^sup>0\<close>, and the area fraction there exceeds \<open>f\<close> by more than \<open>1e-4\<close> times
  \<open>f\<close>, and by more than \<open>1e-4\<close> times itself.
\<close>

theorem roundtrip_relative_counterexample:
  "areaToHeight (Fin (1 / 2 ^ 70)) (Fin 1) = Fin (1 / 2 ^ 30)
   \<and> js_gt (js_sub (areaFraction (areaToHeight (Fin (1 / 2 ^ 70)) (Fin 1)) (Fin 1)) (Fin (1 / 2 ^ 70)))
            (js_mul (Fin (1 / 10 ^ 4)) (Fin (1 / 2 ^ 70)))
   \<and> js_gt (js_sub (areaFraction (areaToHeight (Fin (1 / 2 ^ 70)) (Fin 1)) (Fin 1)) (Fin (1 / 2 ^ 70)))
            (js_mul (Fin (1 / 10 ^ 4)) (areaFraction (areaToHeight (Fin (1 / 2 ^ 70)) (Fin 1)) (Fin 1)))"
proof -
  have s: "(bisectBody (Fin (1 / 2 ^ 70)) (Fin 1) ^^ 30) (Fin 0, Fin 2) = (Fin 0, Fin (2 / 2 ^ 30))"
    by (rule bisect_tiny) simp_all
  have "areaToHeight (Fin (1 / 2 ^ 70)) (Fin 1) =
          (let s = (bisectBody (Fin (1 / 2 ^ 70)) (Fin 1) ^^ 30) (Fin 0, js_mul (Fin 2) (Fin 1))
           in js_div (js_add (fst s) (snd s)) (Fin 2))"
    by (rule areaToHeight_interior) simp_all
  then have "areaToHeight (Fin (1 / 2 ^ 70)) (Fin 1)
               = js_div (js_add (Fin 0) (Fin (2 / 2 ^ 30))) (Fin 2)"
    by (simp only: js_mul.simps mult_1_right s Let_def fst_conv snd_conv)
  then have h: "areaToHeight (Fin (1 / 2 ^ 70)) (Fin 1) = Fin (1 / 2 ^ 30)"
    by simp
  have "((1::real) / 2 ^ 30)\<^sup>2 / 4 \<le> areaR (1 / 2 ^ 30) 1"
    by (rule areaR_lower) simp_all
  then have lo: "(1::real) / 2 ^ 62 \<le> areaR (1 / 2 ^ 30) 1" by (simp add: power2_eq_square)
  have a: "areaFraction (Fin (1 / 2 ^ 30)) (Fin 1) = Fin (areaR (1 / 2 ^ 30) 1)"
    by (simp add: areaFraction_Fin)
  have g1: "(1::real) / 10 ^ 4 * (1 / 2 ^ 70) < areaR (1 / 2 ^ 30) 1 - 1 / 2 ^ 70"
    using lo by simp
  have g2: "(1::real) / 10 ^ 4 * areaR (1 / 2 ^ 30) 1 < areaR (1 / 2 ^ 30) 1 - 1 / 2 ^ 70"
    using lo by simp
  show ?thesis
    unfolding h a using g1 g2 by simp
qed

section \<open>Properties of the edge geometry\<close>

lemma len_pos:
  fixes dx dy :: real
  assumes "dx \<noteq> 0 \<or> dy \<noteq> 0"
  shows "0 < dx * dx + dy * dy"
proof -
  have "0 \<le> dx * dx" "0 \<le> dy * dy" by simp_all
  moreover have "0 < dx * dx \<or> 0 < dy * dy"
    using assms by (auto simp: zero_less_mult_iff not_less_iff_gr_or_eq)
  ultimately show ?thesis by linarith
qed

lemma shortenLine_Fin:
  fixes xa ya xb yb ps pe :: real
  assumes "xb - xa \<noteq> 0 \<or> yb - ya \<noteq> 0"
  shows "shortenLine (Fin xa) (Fin ya) (Fin xb) (Fin yb) (Fin ps) (Some (Fin pe)) =
           \<lparr> x1 = Fin (xa + (xb - xa) * (ps / sqrt ((xb - xa) * (xb - xa) + (yb - ya) * (yb - ya)))),
             y1 = Fin (ya + (yb - ya) * (ps / sqrt ((xb - xa) * (xb - xa) + (yb - ya) * (yb - ya)))),
             x2 = Fin (xb - (xb - xa) * (pe / sqrt ((xb - xa) * (xb - xa) + (yb - ya) * (yb - ya)))),
             y2 = Fin (yb - (yb - ya) * (pe / sqrt ((xb - xa) * (xb - xa) + (yb - ya) * (yb - ya)))) \<rparr>"
proof -
  have p: "0 < (xb - xa) * (xb - xa) + (yb - ya) * (yb - ya)" using len_pos[OF assms] .
  have n: "\<not> (xb - xa) * (xb - xa) + (yb - ya) * (yb - ya) < 0" using p by linarith
  have "0 < sqrt ((xb - xa) * (xb - xa) + (yb - ya) * (yb - ya))"
    using p by (simp only: real_sqrt_gt_zero)
  then have z: "sqrt ((xb - xa) * (xb - xa) + (yb - ya) * (yb - ya)) \<noteq> 0" by linarith
  show ?thesis
    by (simp only: shortenLine_def Let_def option.case js_sub_Fin js_mul.simps js_add.simps
          js_sqrt.simps js_div.simps n z if_False)
qed

lemma unit_dir:
  fixes dx dy :: real
  assumes "dx \<noteq> 0 \<or> dy \<noteq> 0"
  shows "(dx / sqrt (dx * dx + dy * dy))\<^sup>2 + (dy / sqrt (dx * dx + dy * dy))\<^sup>2 = 1"
proof -
  have p: "0 < dx * dx + dy * dy" using len_pos[OF assms] .
  define S where "S = dx * dx + dy * dy"
  have q: "0 < S" using p by (simp only: S_def)
  have s: "(sqrt S)\<^sup>2 = S" "S \<noteq> 0" using q by simp_all
  have "(dx / sqrt S)\<^sup>2 + (dy / sqrt S)\<^sup>2 = (dx\<^sup>2 + dy\<^sup>2) / (sqrt S)\<^sup>2"
    by (simp only: power_divide add_divide_distrib)
  also have "dx\<^sup>2 + dy\<^sup>2 = S" by (simp only: S_def power2_eq_square)
  also have "S / (sqrt S)\<^sup>2 = 1" using s by simp
  finally show ?thesis unfolding S_def .
qed



lemma perp_unit:
  fixes dx dy :: real
  assumes "dx \<noteq> 0 \<or> dy \<noteq> 0"
  shows "(- dy / sqrt (dx * dx + dy * dy))\<^sup>2 + (dx / sqrt (dx * dx + dy * dy))\<^sup>2 = 1"
    and "- dy / sqrt (dx * dx + dy * dy) * dx + dx / sqrt (dx * dx + dy * dy) * dy = 0"
proof -
  have "(dy / sqrt (dx * dx + dy * dy))\<^sup>2 + (dx / sqrt (dx * dx + dy * dy))\<^sup>2 = 1"
    using unit_dir[of dy dx] assms by (simp add: add.commute disj_commute)
  then show "(- dy / sqrt (dx * dx + dy * dy))\<^sup>2 + (dx / sqrt (dx * dx + dy * dy))\<^sup>2 = 1"
    by (simp add: power2_eq_square)
  show "- dy / sqrt (dx * dx + dy * dy) * dx + dx / sqrt (dx * dx + dy * dy) * dy = 0"
    by simp
qed




section \<open>Properties of the band composer\<close>

lemma primaryLoop_skip:
  "\<not> js_gt (bprop b) (Fin (1 / 1000)) \<Longrightarrow>
     primaryLoop hz cx cy r (b # bs) st = primaryLoop hz cx cy r bs st"
  by (cases st) simp

lemma primaryLoop_small:
  assumes "js_gt (bprop b) (Fin (1 / 1000))"
    and "\<not> js_gt (js_sub (areaToHeight (js_min (js_add c (bprop b)) (Fin 1)) r) p) (Fin (1 / 2))"
  shows "primaryLoop hz cx cy r (b # bs) (c, p, h) =
           primaryLoop hz cx cy r bs
             (js_add c (bprop b), areaToHeight (js_min (js_add c (bprop b)) (Fin 1)) r, h)"
  using assms by (simp add: Let_def)

lemma primaryLoop_big:
  assumes "js_gt (bprop b) (Fin (1 / 1000))"
    and "js_gt (js_sub (areaToHeight (js_min (js_add c (bprop b)) (Fin 1)) r) p) (Fin (1 / 2))"
  shows "\<exists>rect. \<forall>h. primaryLoop hz cx cy r (b # bs) (c, p, h) =
           primaryLoop hz cx cy r bs
             (js_add c (bprop b), areaToHeight (js_min (js_add c (bprop b)) (Fin 1)) r, h @ [rect])"
proof (cases hz)
  case True
  with assms show ?thesis by (intro exI allI) (simp add: Let_def)
next
  case False
  with assms show ?thesis by (intro exI allI) (simp add: Let_def)
qed

lemma primaryLoop_append:
  "primaryLoop hz cx cy r bs (c, p, g) =
     (fst (primaryLoop hz cx cy r bs (c, p, [])),
      fst (snd (primaryLoop hz cx cy r bs (c, p, []))),
      g @ snd (snd (primaryLoop hz cx cy r bs (c, p, []))))"
proof (induction bs arbitrary: c p g)
  case Nil
  then show ?case by simp
next
  case (Cons b bs)
  let ?c = "js_add c (bprop b)"
  let ?e = "areaToHeight (js_min ?c (Fin 1)) r"
  show ?case
  proof (cases "js_gt (bprop b) (Fin (1 / 1000))")
    case False
    show ?thesis unfolding primaryLoop_skip[OF False] by (rule Cons.IH)
  next
    case True
    show ?thesis
    proof (cases "js_gt (js_sub ?e p) (Fin (1 / 2))")
      case False
      show ?thesis unfolding primaryLoop_small[OF True False] by (rule Cons.IH)
    next
      case big: True
      from primaryLoop_big[OF True big] obtain rect where
        t: "\<And>h. primaryLoop hz cx cy r (b # bs) (c, p, h) =
              primaryLoop hz cx cy r bs (?c, ?e, h @ [rect])" by blast
      show ?thesis unfolding t
        by (subst Cons.IH[of ?c ?e "g @ [rect]"], subst (1 2 3) Cons.IH[of ?c ?e "[] @ [rect]"]) simp
    qed
  qed
qed

lemma secondaryLoop_skip:
  "\<not> js_gt (bprop b) (Fin (1 / 1000)) \<Longrightarrow>
     secondaryLoop hz cx cy r (b # bs) st = secondaryLoop hz cx cy r bs st"
  by (cases st) simp

lemma secondaryLoop_small:
  assumes "js_gt (bprop b) (Fin (1 / 1000))"
    and "\<not> js_gt (js_sub (areaToHeight (js_min (js_add c (bprop b)) (Fin 1)) r) p) (Fin (1 / 2))"
  shows "secondaryLoop hz cx cy r (b # bs) (c, p, h) =
           secondaryLoop hz cx cy r bs
             (js_add c (bprop b), areaToHeight (js_min (js_add c (bprop b)) (Fin 1)) r, h)"
  using assms by (simp add: Let_def)

lemma secondaryLoop_big:
  assumes "js_gt (bprop b) (Fin (1 / 1000))"
    and "js_gt (js_sub (areaToHeight (js_min (js_add c (bprop b)) (Fin 1)) r) p) (Fin (1 / 2))"
  shows "\<exists>rect. \<forall>h. secondaryLoop hz cx cy r (b # bs) (c, p, h) =
           secondaryLoop hz cx cy r bs
             (js_add c (bprop b), areaToHeight (js_min (js_add c (bprop b)) (Fin 1)) r, h @ [rect])"
proof (cases hz)
  case True
  with assms show ?thesis by (intro exI allI) (simp add: Let_def)
next
  case False
  with assms show ?thesis by (intro exI allI) (simp add: Let_def)
qed

lemma secondaryLoop_append:
  "secondaryLoop hz cx cy r bs (c, p, g) =
     (fst (secondaryLoop hz cx cy r bs (c, p, [])),
      fst (snd (secondaryLoop hz cx cy r bs (c, p, []))),
      g @ snd (snd (secondaryLoop hz cx cy r bs (c, p, []))))"
proof (induction bs arbitrary: c p g)
  case Nil
  then show ?case by simp
next
  case (Cons b bs)
  let ?c = "js_add c (bprop b)"
  let ?e = "areaToHeight (js_min ?c (Fin 1)) r"
  show ?case
  proof (cases "js_gt (bprop b) (Fin (1 / 1000))")
    case False
    show ?thesis unfolding secondaryLoop_skip[OF False] by (rule Cons.IH)
  next
    case True
    show ?thesis
    proof (cases "js_gt (js_sub ?e p) (Fin (1 / 2))")
      case False
      show ?thesis unfolding secondaryLoop_small[OF True False] by (rule Cons.IH)
    next
      case big: True
      from secondaryLoop_big[OF True big] obtain rect where
        t: "\<And>h. secondaryLoop hz cx cy r (b # bs) (c, p, h) =
              secondaryLoop hz cx cy r bs (?c, ?e, h @ [rect])" by blast
      show ?thesis unfolding t
        by (subst Cons.IH[of ?c ?e "g @ [rect]"], subst (1 2 3) Cons.IH[of ?c ?e "[] @ [rect]"]) simp
    qed
  qed
qed

declare primaryLoop.simps(2) [simp del]
declare secondaryLoop.simps(2) [simp del]

lemma drawNode_shape:
  "drawNode svg cx cy r clipId (Some bs) ori bc =
     Inr (svg @
       [Element ''g'' [(''clip-path'', StrV (''url(#'' @ clipId @ '')''))]
          (Element ''rect''
             [(''x'', NumV (js_sub cx r)), (''y'', NumV (js_sub cy r)),
              (''width'', NumV (js_mul r (Fin 2))), (''height'', NumV (js_mul r (Fin 2))),
              (''fill'', StrV (case bc of None \<Rightarrow> ''#bbb''
                                | Some c \<Rightarrow> if c = [] then ''#bbb'' else c))] []
           # snd (snd (primaryLoop (ori = Some ''horizontal'') cx cy r
                         (case bottomUp bs of None \<Rightarrow> [] | Some l \<Rightarrow> l) (Fin 0, Fin 0, [])))
           @ snd (snd (secondaryLoop (ori = Some ''horizontal'') cx cy r
                         (case topDown bs of None \<Rightarrow> [] | Some l \<Rightarrow> l) (Fin 0, Fin 0, [])))),
        Element ''circle''
          [(''cx'', NumV cx), (''cy'', NumV cy), (''r'', NumV r),
           (''fill'', StrV ''none''), (''stroke'', StrV ''#333''),
           (''stroke-width'', NumV (Fin 2))] []])"
  unfolding drawNode_def Let_def option.case
  by (subst secondaryLoop_append, subst primaryLoop_append) simp

text \<open>
  Claim C10. When \<^verbatim>\<open>bands\<close> has no \<^verbatim>\<open>bottomUp\<close> (or no \<^verbatim>\<open>topDown\<close>) list, \<^verbatim>\<open>drawNode\<close>
  does what it does for the empty list: it returns normally (\<open>Inr\<close>), the clipped group
  holds the base fill followed by the rectangles of the other stack only, and the outline
  circle follows the group. With both lists absent the group holds the base fill alone.
\<close>

theorem drawNode_missing_stack:
  "(let hz = (ori = Some ''horizontal'');
        clip = [(''clip-path'', StrV (''url(#'' @ clipId @ '')''))];
        base = Element ''rect''
                 [(''x'', NumV (js_sub cx r)), (''y'', NumV (js_sub cy r)),
                  (''width'', NumV (js_mul r (Fin 2))), (''height'', NumV (js_mul r (Fin 2))),
                  (''fill'', StrV (case bc of None \<Rightarrow> ''#bbb''
                                    | Some c \<Rightarrow> if c = [] then ''#bbb'' else c))] [];
        outline = Element ''circle''
                    [(''cx'', NumV cx), (''cy'', NumV cy), (''r'', NumV r),
                     (''fill'', StrV ''none''), (''stroke'', StrV ''#333''),
                     (''stroke-width'', NumV (Fin 2))] []
    in drawNode svg cx cy r clipId (Some \<lparr>bottomUp = None, topDown = td\<rparr>) ori bc
         = drawNode svg cx cy r clipId (Some \<lparr>bottomUp = Some [], topDown = td\<rparr>) ori bc
     \<and> drawNode svg cx cy r clipId (Some \<lparr>bottomUp = bu, topDown = None\<rparr>) ori bc
         = drawNode svg cx cy r clipId (Some \<lparr>bottomUp = bu, topDown = Some []\<rparr>) ori bc
     \<and> drawNode svg cx cy r clipId (Some \<lparr>bottomUp = None, topDown = Some ts\<rparr>) ori bc
         = Inr (svg @ [Element ''g'' clip
                         (base # snd (snd (secondaryLoop hz cx cy r ts (Fin 0, Fin 0, [])))),
                       outline])
     \<and> drawNode svg cx cy r clipId (Some \<lparr>bottomUp = Some ps, topDown = None\<rparr>) ori bc
         = Inr (svg @ [Element ''g'' clip
                         (base # snd (snd (primaryLoop hz cx cy r ps (Fin 0, Fin 0, [])))),
                       outline])
     \<and> drawNode svg cx cy r clipId (Some \<lparr>bottomUp = None, topDown = None\<rparr>) ori bc
         = Inr (svg @ [Element ''g'' clip [base], outline]))"
  unfolding Let_def by (simp add: drawNode_shape)

lemma shortenLine_degenerate:
  "shortenLine (Fin a) (Fin b) (Fin a) (Fin b) ps pe = \<lparr>x1 = NaN, y1 = NaN, x2 = NaN, y2 = NaN\<rparr>"
proof -
  have d: "js_mul (Fin 0) (js_div q (Fin 0)) = NaN" for q
    by (cases q) simp_all
  have "js_add (Fin a) (js_mul (Fin 0) (js_div q (Fin 0))) = NaN"
    "js_sub (Fin a) (js_mul (Fin 0) (js_div q (Fin 0))) = NaN" for a q
    by (simp_all add: d js_sub_def)
  then show ?thesis
    by (cases pe) (simp_all add: shortenLine_def Let_def)
qed

text \<open>
  Claim C9, amended. No precondition-violating input makes these operations fail; each
  returns a result. \<^verbatim>\<open>shortenLine\<close> on coincident finite endpoints, with any pads, returns
  a segment whose four coordinates are NaN (the division by the zero length gives an
  infinity or NaN, and \<open>0 * \<infinity>\<close> is NaN). \<^verbatim>\<open>drawNode\<close> on any radius (a negative one
  included) and any proportions returns normally with the base fill first in the group
  and the outline circle after it; a band with a negative proportion is skipped as a
  whole, and a proportion above 1 is clamped: the extent after the first such band is
  \<open>2r\<close>.
\<close>

theorem no_fail_fast:
  "shortenLine (Fin a) (Fin b) (Fin a) (Fin b) padStart padEnd
     = \<lparr>x1 = NaN, y1 = NaN, x2 = NaN, y2 = NaN\<rparr>
   \<and> (\<exists>rects. drawNode svg cx cy r clipId (Some bs) ori bc =
         Inr (svg @
           [Element ''g'' [(''clip-path'', StrV (''url(#'' @ clipId @ '')''))]
              (Element ''rect''
                 [(''x'', NumV (js_sub cx r)), (''y'', NumV (js_sub cy r)),
                  (''width'', NumV (js_mul r (Fin 2))), (''height'', NumV (js_mul r (Fin 2))),
                  (''fill'', StrV (case bc of None \<Rightarrow> ''#bbb''
                                    | Some c \<Rightarrow> if c = [] then ''#bbb'' else c))] []
               # rects),
            Element ''circle''
              [(''cx'', NumV cx), (''cy'', NumV cy), (''r'', NumV r),
               (''fill'', StrV ''none''), (''stroke'', StrV ''#333''),
               (''stroke-width'', NumV (Fin 2))] []]))
   \<and> (p < 0 \<longrightarrow>
         primaryLoop hz cx cy r (\<lparr>bprop = Fin p, fill = c\<rparr> # rest) st
           = primaryLoop hz cx cy r rest st
       \<and> secondaryLoop hz cx cy r (\<lparr>bprop = Fin p, fill = c\<rparr> # rest) st
           = secondaryLoop hz cx cy r rest st)
   \<and> (1 < p \<longrightarrow>
         fst (snd (primaryLoop hz cx cy r [\<lparr>bprop = Fin p, fill = c\<rparr>] (Fin 0, Fin 0, g)))
           = js_mul (Fin 2) r
       \<and> fst (snd (secondaryLoop hz cx cy r [\<lparr>bprop = Fin p, fill = c\<rparr>] (Fin 0, Fin 0, g)))
           = js_mul (Fin 2) r)"
proof (intro conjI impI)
  show "shortenLine (Fin a) (Fin b) (Fin a) (Fin b) padStart padEnd
     = \<lparr>x1 = NaN, y1 = NaN, x2 = NaN, y2 = NaN\<rparr>"
    by (rule shortenLine_degenerate)
next
  show "\<exists>rects. drawNode svg cx cy r clipId (Some bs) ori bc =
         Inr (svg @
           [Element ''g'' [(''clip-path'', StrV (''url(#'' @ clipId @ '')''))]
              (Element ''rect''
                 [(''x'', NumV (js_sub cx r)), (''y'', NumV (js_sub cy r)),
                  (''width'', NumV (js_mul r (Fin 2))), (''height'', NumV (js_mul r (Fin 2))),
                  (''fill'', StrV (case bc of None \<Rightarrow> ''#bbb''
                                    | Some c \<Rightarrow> if c = [] then ''#bbb'' else c))] []
               # rects),
            Element ''circle''
              [(''cx'', NumV cx), (''cy'', NumV cy), (''r'', NumV r),
               (''fill'', StrV ''none''), (''stroke'', StrV ''#333''),
               (''stroke-width'', NumV (Fin 2))] []])"
    unfolding drawNode_shape by blast
next
  assume "p < 0"
  then show "primaryLoop hz cx cy r (\<lparr>bprop = Fin p, fill = c\<rparr> # rest) st
           = primaryLoop hz cx cy r rest st"
    by (intro primaryLoop_skip) simp
next
  assume "p < 0"
  then show "secondaryLoop hz cx cy r (\<lparr>bprop = Fin p, fill = c\<rparr> # rest) st
           = secondaryLoop hz cx cy r rest st"
    by (intro secondaryLoop_skip) simp
next
  assume p: "1 < p"
  have e: "areaToHeight (Fin 1) r = js_mul (Fin 2) r"
    by (simp add: areaToHeight_def)
  have t: "js_gt (bprop \<lparr>bprop = Fin p, fill = c\<rparr>) (Fin (1 / 1000))" using p by simp
  show "fst (snd (primaryLoop hz cx cy r [\<lparr>bprop = Fin p, fill = c\<rparr>] (Fin 0, Fin 0, g)))
           = js_mul (Fin 2) r"
  proof (cases "js_gt (js_sub (js_mul (Fin 2) r) (Fin 0)) (Fin (1 / 2))")
    case False
    then show ?thesis
      using primaryLoop_small[OF t, of "Fin 0" r "Fin 0" hz cx cy "[]" g] by (simp add: e p)
  next
    case True
    then show ?thesis
      using primaryLoop_big[OF t, of "Fin 0" r "Fin 0" hz cx cy "[]"] by (auto simp: e p)
  qed
  show "fst (snd (secondaryLoop hz cx cy r [\<lparr>bprop = Fin p, fill = c\<rparr>] (Fin 0, Fin 0, g)))
           = js_mul (Fin 2) r"
  proof (cases "js_gt (js_sub (js_mul (Fin 2) r) (Fin 0)) (Fin (1 / 2))")
    case False
    then show ?thesis
      using secondaryLoop_small[OF t, of "Fin 0" r "Fin 0" hz cx cy "[]" g] by (simp add: e p)
  next
    case True
    then show ?thesis
      using secondaryLoop_big[OF t, of "Fin 0" r "Fin 0" hz cx cy "[]"] by (auto simp: e p)
  qed
qed

theorem no_fail_fast_witness:
  "(- 1 :: real) < 0
   \<and> primaryLoop False (Fin 0) (Fin 0) (Fin 10) [\<lparr>bprop = Fin (- 1), fill = ''red''\<rparr>]
         (Fin 0, Fin 0, []) = (Fin 0, Fin 0, [])
   \<and> (1 :: real) < 3 / 2
   \<and> fst (snd (primaryLoop False (Fin 0) (Fin 0) (Fin 10) [\<lparr>bprop = Fin (3 / 2), fill = ''red''\<rparr>]
         (Fin 0, Fin 0, []))) = Fin 20"
proof -
  have a: "primaryLoop False (Fin 0) (Fin 0) (Fin 10) [\<lparr>bprop = Fin (- 1), fill = ''red''\<rparr>]
         (Fin 0, Fin 0, []) = primaryLoop False (Fin 0) (Fin 0) (Fin 10) [] (Fin 0, Fin 0, [])"
    using no_fail_fast[where p = "- 1" and hz = False and cx = "Fin 0" and cy = "Fin 0"
        and r = "Fin 10" and c = "''red''" and rest = "[]" and st = "(Fin 0, Fin 0, [])"]
    by simp
  have b: "fst (snd (primaryLoop False (Fin 0) (Fin 0) (Fin 10) [\<lparr>bprop = Fin (3 / 2), fill = ''red''\<rparr>]
         (Fin 0, Fin 0, []))) = js_mul (Fin 2) (Fin 10)"
    using no_fail_fast[where p = "3 / 2" and hz = False and cx = "Fin 0" and cy = "Fin 0"
        and r = "Fin 10" and c = "''red''" and g = "[]"]
    by simp
  show ?thesis using a b by simp
qed

text \<open>
  Claim C9 as stated fails: a zero-length segment yields a segment of NaN coordinates, and
  a node of radius \<open>-5\<close> with one band of proportion \<open>1.5\<close> is drawn (base fill of
  width \<open>-10\<close>, no band rectangle, outline of radius \<open>-5\<close>); neither call raises.
\<close>

theorem no_fail_fast_counterexample:
  "shortenLine (Fin 0) (Fin 0) (Fin 0) (Fin 0) (Fin 2) (Some (Fin 3))
     = \<lparr>x1 = NaN, y1 = NaN, x2 = NaN, y2 = NaN\<rparr>
   \<and> drawNode [] (Fin 0) (Fin 0) (Fin (- 5)) ''c''
        (Some \<lparr>bottomUp = Some [\<lparr>bprop = Fin (3 / 2), fill = ''red''\<rparr>], topDown = None\<rparr>)
        None None
     = Inr [Element ''g'' [(''clip-path'', StrV ''url(#c)'')]
              [Element ''rect''
                 [(''x'', NumV (Fin 5)), (''y'', NumV (Fin 5)),
                  (''width'', NumV (Fin (- 10))), (''height'', NumV (Fin (- 10))),
                  (''fill'', StrV ''#bbb'')] []],
            Element ''circle''
              [(''cx'', NumV (Fin 0)), (''cy'', NumV (Fin 0)), (''r'', NumV (Fin (- 5))),
               (''fill'', StrV ''none''), (''stroke'', StrV ''#333''),
               (''stroke-width'', NumV (Fin 2))] []]"
proof -
  have e: "areaToHeight (Fin 1) (Fin (- 5)) = Fin (- 10)"
    by (simp add: areaToHeight_def)
  have "primaryLoop False (Fin 0) (Fin 0) (Fin (- 5)) [\<lparr>bprop = Fin (3 / 2), fill = ''red''\<rparr>]
          (Fin 0, Fin 0, []) = (Fin (3 / 2), Fin (- 10), [])"
    by (subst primaryLoop_small) (simp_all add: e)
  then show ?thesis
    by (simp add: shortenLine_degenerate drawNode_shape)
qed

text \<open>
  Claim C5, amended. In both band loops, a band whose proportion is not above \<open>0.001\<close> is
  skipped as a whole: neither the cumulative fraction nor the extent changes, so it does
  not shift the bands after it. A band whose proportion is above \<open>0.001\<close> adds its
  proportion to the cumulative fraction and moves the extent to
  \<^verbatim>\<open>areaToHeight(min(cumFrac, 1), r)\<close>; its rectangle is appended exactly when the new
  extent exceeds the previous one by more than \<open>0.5\<close>, and the band shifts the bands after
  it in either case.
\<close>

theorem band_step:
  "(\<not> js_gt (bprop b) (Fin (1 / 1000)) \<longrightarrow>
       primaryLoop hz cx cy r (b # rest) st = primaryLoop hz cx cy r rest st
     \<and> secondaryLoop hz cx cy r (b # rest) st = secondaryLoop hz cx cy r rest st)
   \<and> (js_gt (bprop b) (Fin (1 / 1000)) \<longrightarrow>
        (let cumFrac' = js_add cumFrac (bprop b);
             extent = areaToHeight (js_min cumFrac' (Fin 1)) r
         in (\<exists>g1. primaryLoop hz cx cy r (b # rest) (cumFrac, prev, g)
                     = primaryLoop hz cx cy r rest (cumFrac', extent, g1)
                 \<and> (if js_gt (js_sub extent prev) (Fin (1 / 2))
                     then \<exists>rect. g1 = g @ [rect] else g1 = g))
          \<and> (\<exists>g2. secondaryLoop hz cx cy r (b # rest) (cumFrac, prev, g)
                     = secondaryLoop hz cx cy r rest (cumFrac', extent, g2)
                 \<and> (if js_gt (js_sub extent prev) (Fin (1 / 2))
                     then \<exists>rect. g2 = g @ [rect] else g2 = g))))"
proof (intro conjI impI)
  assume n: "\<not> js_gt (bprop b) (Fin (1 / 1000))"
  show "primaryLoop hz cx cy r (b # rest) st = primaryLoop hz cx cy r rest st"
    by (rule primaryLoop_skip[OF n])
  show "secondaryLoop hz cx cy r (b # rest) st = secondaryLoop hz cx cy r rest st"
    by (rule secondaryLoop_skip[OF n])
next
  assume t: "js_gt (bprop b) (Fin (1 / 1000))"
  let ?c = "js_add cumFrac (bprop b)"
  let ?e = "areaToHeight (js_min ?c (Fin 1)) r"
  have "(\<exists>g1. primaryLoop hz cx cy r (b # rest) (cumFrac, prev, g)
                     = primaryLoop hz cx cy r rest (?c, ?e, g1)
                 \<and> (if js_gt (js_sub ?e prev) (Fin (1 / 2))
                     then \<exists>rect. g1 = g @ [rect] else g1 = g))
          \<and> (\<exists>g2. secondaryLoop hz cx cy r (b # rest) (cumFrac, prev, g)
                     = secondaryLoop hz cx cy r rest (?c, ?e, g2)
                 \<and> (if js_gt (js_sub ?e prev) (Fin (1 / 2))
                     then \<exists>rect. g2 = g @ [rect] else g2 = g))"
  proof (cases "js_gt (js_sub ?e prev) (Fin (1 / 2))")
    case False
    show ?thesis
      unfolding primaryLoop_small[OF t False] secondaryLoop_small[OF t False]
      using False by (simp only: if_False) blast
  next
    case True
    from primaryLoop_big[OF t True, of hz cx cy rest] obtain r1 where
      a: "primaryLoop hz cx cy r (b # rest) (cumFrac, prev, g)
            = primaryLoop hz cx cy r rest (?c, ?e, g @ [r1])" by blast
    from secondaryLoop_big[OF t True, of hz cx cy rest] obtain r2 where
      b: "secondaryLoop hz cx cy r (b # rest) (cumFrac, prev, g)
            = secondaryLoop hz cx cy r rest (?c, ?e, g @ [r2])" by blast
    show ?thesis
      unfolding a b using True by (simp only: if_True) blast
  qed
  then show "let cumFrac' = js_add cumFrac (bprop b);
                 extent = areaToHeight (js_min cumFrac' (Fin 1)) r
             in (\<exists>g1. primaryLoop hz cx cy r (b # rest) (cumFrac, prev, g)
                     = primaryLoop hz cx cy r rest (cumFrac', extent, g1)
                 \<and> (if js_gt (js_sub extent prev) (Fin (1 / 2))
                     then \<exists>rect. g1 = g @ [rect] else g1 = g))
          \<and> (\<exists>g2. secondaryLoop hz cx cy r (b # rest) (cumFrac, prev, g)
                     = secondaryLoop hz cx cy r rest (cumFrac', extent, g2)
                 \<and> (if js_gt (js_sub extent prev) (Fin (1 / 2))
                     then \<exists>rect. g2 = g @ [rect] else g2 = g))"
    unfolding Let_def .
qed

theorem band_step_witness:
  "\<not> js_gt (bprop \<lparr>bprop = Fin (1 / 2000), fill = ''gold''\<rparr>) (Fin (1 / 1000))
   \<and> primaryLoop False (Fin 0) (Fin 0) (Fin 10)
        [\<lparr>bprop = Fin (1 / 2000), fill = ''gold''\<rparr>, \<lparr>bprop = Fin 1, fill = ''red''\<rparr>]
        (Fin 0, Fin 0, [])
       = primaryLoop False (Fin 0) (Fin 0) (Fin 10) [\<lparr>bprop = Fin 1, fill = ''red''\<rparr>]
           (Fin 0, Fin 0, [])
   \<and> js_gt (bprop \<lparr>bprop = Fin 1, fill = ''red''\<rparr>) (Fin (1 / 1000))
   \<and> (\<exists>g1. primaryLoop False (Fin 0) (Fin 0) (Fin 10) [\<lparr>bprop = Fin 1, fill = ''red''\<rparr>]
              (Fin 0, Fin 0, [])
            = primaryLoop False (Fin 0) (Fin 0) (Fin 10) [] (Fin 1, Fin 20, g1)
          \<and> (\<exists>rect. g1 = [rect]))"
proof -
  have a: "primaryLoop False (Fin 0) (Fin 0) (Fin 10)
        [\<lparr>bprop = Fin (1 / 2000), fill = ''gold''\<rparr>, \<lparr>bprop = Fin 1, fill = ''red''\<rparr>]
        (Fin 0, Fin 0, [])
       = primaryLoop False (Fin 0) (Fin 0) (Fin 10) [\<lparr>bprop = Fin 1, fill = ''red''\<rparr>]
           (Fin 0, Fin 0, [])"
    using band_step[where b = "\<lparr>bprop = Fin (1 / 2000), fill = ''gold''\<rparr>" and hz = False
        and cx = "Fin 0" and cy = "Fin 0" and r = "Fin 10"
        and rest = "[\<lparr>bprop = Fin 1, fill = ''red''\<rparr>]" and st = "(Fin 0, Fin 0, [])"]
    by simp
  have e: "areaToHeight (Fin 1) (Fin 10) = Fin 20"
    by (simp add: areaToHeight_def)
  have c: "\<exists>g1. primaryLoop False (Fin 0) (Fin 0) (Fin 10) [\<lparr>bprop = Fin 1, fill = ''red''\<rparr>]
              (Fin 0, Fin 0, [])
            = primaryLoop False (Fin 0) (Fin 0) (Fin 10) [] (Fin 1, Fin 20, g1)
          \<and> (\<exists>rect. g1 = [rect])"
    using band_step[where b = "\<lparr>bprop = Fin 1, fill = ''red''\<rparr>" and hz = False
        and cx = "Fin 0" and cy = "Fin 0" and r = "Fin 10" and cumFrac = "Fin 0" and prev = "Fin 0"
        and rest = "[]" and g = "[]"]
    by (simp add: Let_def e)
  show ?thesis by (intro conjI a c) simp_all
qed

lemma tiny_skipped:
  "primaryLoop False (Fin 0) (Fin 0) (Fin 10)
     (\<lparr>bprop = Fin (1 / 2000), fill = ''gold''\<rparr> # rest) (Fin 0, Fin 0, g)
   = primaryLoop False (Fin 0) (Fin 0) (Fin 10) rest (Fin 0, Fin 0, g)"
  by (rule primaryLoop_skip) simp

text \<open>
  Claim C5 as stated fails for the proportion threshold: after a band of proportion
  \<open>0.0005\<close> the cumulative fraction is still 0, and a node drawn with that band before a
  band of proportion \<open>0.5\<close> is the node drawn without it.
\<close>

theorem band_step_counterexample:
  "primaryLoop False (Fin 0) (Fin 0) (Fin 10) [\<lparr>bprop = Fin (1 / 2000), fill = ''gold''\<rparr>]
       (Fin 0, Fin 0, []) = (Fin 0, Fin 0, [])
   \<and> Fin 0 \<noteq> js_add (Fin 0) (Fin (1 / 2000))
   \<and> drawNode [] (Fin 0) (Fin 0) (Fin 10) ''c''
        (Some \<lparr>bottomUp = Some [\<lparr>bprop = Fin (1 / 2000), fill = ''gold''\<rparr>,
                                 \<lparr>bprop = Fin (1 / 2), fill = ''red''\<rparr>],
               topDown = None\<rparr>) None None
     = drawNode [] (Fin 0) (Fin 0) (Fin 10) ''c''
        (Some \<lparr>bottomUp = Some [\<lparr>bprop = Fin (1 / 2), fill = ''red''\<rparr>], topDown = None\<rparr>)
        None None"
proof (intro conjI)
  show "primaryLoop False (Fin 0) (Fin 0) (Fin 10) [\<lparr>bprop = Fin (1 / 2000), fill = ''gold''\<rparr>]
       (Fin 0, Fin 0, []) = (Fin 0, Fin 0, [])"
    by (simp only: tiny_skipped primaryLoop.simps(1))
  show "Fin 0 \<noteq> js_add (Fin 0) (Fin (1 / 2000))" by simp
  show "drawNode [] (Fin 0) (Fin 0) (Fin 10) ''c''
        (Some \<lparr>bottomUp = Some [\<lparr>bprop = Fin (1 / 2000), fill = ''gold''\<rparr>,
                                 \<lparr>bprop = Fin (1 / 2), fill = ''red''\<rparr>],
               topDown = None\<rparr>) None None
     = drawNode [] (Fin 0) (Fin 0) (Fin 10) ''c''
        (Some \<lparr>bottomUp = Some [\<lparr>bprop = Fin (1 / 2), fill = ''red''\<rparr>], topDown = None\<rparr>)
        None None"
    by (simp add: drawNode_shape tiny_skipped)
qed

subsection \<open>One and two primary bands\<close>

lemma arcsin_ge_arg:
  assumes "0 \<le> y" "y \<le> 1"
  shows "y \<le> arcsin y"
proof -
  have "0 \<le> arcsin y" using assms by (intro arcsin_nonneg) simp
  then have "sin (arcsin y) \<le> arcsin y" by (rule sin_x_le_x)
  then show ?thesis using assms by simp
qed

lemma areaR_at_11_20:
  assumes "0 < r"
  shows "areaR (11 * r / 20) r < 3 / 10"
proof -
  have u: "11 * r / 20 / r - 1 = - (9 / 20)" using assms by (simp add: field_simps)
  have a: "9 / 20 \<le> arcsin (9 / 20 :: real)" by (rule arcsin_ge_arg) simp_all
  have "(89 / 100 :: real)\<^sup>2 \<le> 1 - (9 / 20)\<^sup>2" by (simp add: power2_eq_square)
  then have s: "89 / 100 \<le> sqrt (1 - (9 / 20 :: real)\<^sup>2)" by (rule real_le_rsqrt)
  have "segArea (- (9 / 20)) = - arcsin (9 / 20) - 9 / 20 * sqrt (1 - (9 / 20)\<^sup>2)"
    by (simp add: segArea_def arcsin_minus)
  also have "\<dots> \<le> - (9 / 20) - 9 / 20 * (89 / 100)"
    using a s by (intro diff_mono mult_left_mono) simp_all
  finally have g: "segArea (- (9 / 20)) \<le> - (85 / 100)" by simp
  have "segArea (- (9 / 20)) / pi \<le> - (85 / 100) / pi" using g by (intro divide_right_mono) simp_all
  also have "- (85 / 100) / pi \<le> - (85 / 100) / 4"
    using pi_less_4 pi_gt_zero by (simp add: field_simps)
  finally have q: "segArea (- (9 / 20)) / pi \<le> - (85 / 400)" by simp
  have "areaR (11 * r / 20) r = 1 / 2 + segArea (- (9 / 20)) / pi"
    using assms by (simp add: areaR_def u)
  then show ?thesis using q by linarith
qed

lemma areaR_r_r: "0 < r \<Longrightarrow> areaR r r = 1 / 2"
  by (simp add: areaR_def)

lemma areaToHeight_between:
  assumes r: "0 < r" and f: "0 < f" "f < 1"
    and a: "areaR a r < f" and b: "f \<le> areaR b r"
  shows "\<exists>e. areaToHeight (Fin f) (Fin r) = Fin e \<and> a - r / 2 ^ 30 < e \<and> e < b + r / 2 ^ 30"
proof -
  from areaToHeight_bracket[OF r f] obtain l h where
    e: "areaToHeight (Fin f) (Fin r) = Fin ((l + h) / 2)"
    and w: "h - l = 2 * r / 2 ^ 30" and p: "areaR l r < f" "f \<le> areaR h r" by blast
  have "a < h"
  proof (rule ccontr)
    assume "\<not> a < h"
    then have "areaR h r \<le> areaR a r" by (intro areaR_mono[OF r]) simp
    then show False using a p by linarith
  qed
  moreover have "l < b"
  proof (rule ccontr)
    assume "\<not> l < b"
    then have "areaR b r \<le> areaR l r" by (intro areaR_mono[OF r]) simp
    then show False using b p by linarith
  qed
  moreover have "(l + h) / 2 = h - r / 2 ^ 30" "(l + h) / 2 = l + r / 2 ^ 30"
    using w by (simp_all add: field_simps)
  ultimately have "a - r / 2 ^ 30 < (l + h) / 2" "(l + h) / 2 < b + r / 2 ^ 30" by linarith+
  then show ?thesis using e by blast
qed

lemma extent_3_10:
  assumes r: "0 < r"
  shows "\<exists>e. areaToHeight (Fin (3 / 10)) (Fin r) = Fin e \<and> r / 2 < e \<and> e < 11 * r / 10"
proof -
  have "\<exists>e. areaToHeight (Fin (3 / 10)) (Fin r) = Fin e
          \<and> 11 * r / 20 - r / 2 ^ 30 < e \<and> e < r + r / 2 ^ 30"
    using areaR_at_11_20[OF r] areaR_r_r[OF r] by (intro areaToHeight_between[OF r]) simp_all
  then obtain e where e: "areaToHeight (Fin (3 / 10)) (Fin r) = Fin e"
    "11 * r / 20 - r / 2 ^ 30 < e" "e < r + r / 2 ^ 30" by blast
  have "r / 2 ^ 30 \<le> r / 20" using r by (intro divide_left_mono) simp_all
  then have "r / 2 < e" "e < 11 * r / 10" using e r by linarith+
  then show ?thesis using e(1) by blast
qed


lemma areaToHeight_one: "areaToHeight (Fin 1) (Fin r) = Fin (2 * r)"
  by (simp add: areaToHeight_def)

lemma primary_single:
  assumes "1 / 4 < r"
  shows "primaryLoop hz (Fin cx) (Fin cy) (Fin r) [\<lparr>bprop = Fin 1, fill = c1\<rparr>] (Fin 0, Fin 0, [])
    = (Fin 1, Fin (2 * r),
       [if hz then
          Element ''rect''
            [(''x'', NumV (Fin (cx - r))), (''y'', NumV (Fin (cy - r))),
             (''width'', NumV (Fin (2 * r))), (''height'', NumV (Fin (2 * r))),
             (''fill'', StrV c1)] []
        else
          Element ''rect''
            [(''x'', NumV (Fin (cx - r))), (''y'', NumV (Fin (cy + r - 2 * r))),
             (''width'', NumV (Fin (2 * r))), (''height'', NumV (Fin (2 * r))),
             (''fill'', StrV c1)] []])"
  using assms by (simp add: primaryLoop.simps(2) Let_def areaToHeight_one mult.commute)

lemma primary_pair:
  assumes e: "areaToHeight (Fin (3 / 10)) (Fin r) = Fin e1"
    and v: "1 / 2 < e1" "1 / 2 < 2 * r - e1"
  shows "primaryLoop hz (Fin cx) (Fin cy) (Fin r)
           [\<lparr>bprop = Fin (3 / 10), fill = c1\<rparr>, \<lparr>bprop = Fin (7 / 10), fill = c2\<rparr>]
           (Fin 0, Fin 0, [])
    = (Fin 1, Fin (2 * r),
       if hz then
         [Element ''rect''
            [(''x'', NumV (Fin (cx - r))), (''y'', NumV (Fin (cy - r))),
             (''width'', NumV (Fin e1)), (''height'', NumV (Fin (2 * r))),
             (''fill'', StrV c1)] [],
          Element ''rect''
            [(''x'', NumV (Fin (cx - r + e1))), (''y'', NumV (Fin (cy - r))),
             (''width'', NumV (Fin (2 * r - e1))), (''height'', NumV (Fin (2 * r))),
             (''fill'', StrV c2)] []]
       else
         [Element ''rect''
            [(''x'', NumV (Fin (cx - r))), (''y'', NumV (Fin (cy + r - e1))),
             (''width'', NumV (Fin (2 * r))), (''height'', NumV (Fin e1)),
             (''fill'', StrV c1)] [],
          Element ''rect''
            [(''x'', NumV (Fin (cx - r))), (''y'', NumV (Fin (cy + r - 2 * r))),
             (''width'', NumV (Fin (2 * r))), (''height'', NumV (Fin (2 * r - e1))),
             (''fill'', StrV c2)] []])"
  using v by (simp add: primaryLoop.simps(2) Let_def areaToHeight_one e mult.commute)

text \<open>
  Claim C4, amended. For a disk of radius \<open>r > 1/4\<close> with a single primary band of
  proportion 1, the band composer emits, after the base fill, one rectangle that spans
  the full diameter \<open>2r\<close>. For \<open>r > 0\<close> and two primary bands of proportions \<open>0.3\<close> and
  \<open>0.7\<close> the cumulative extents are \<open>e1 = areaToHeight(0.3, r)\<close>, a finite value between
  \<open>r / 2\<close> and \<open>1.1 r\<close>, and \<open>areaToHeight(1, r) = 2r\<close>; whenever both bands are more than
  \<open>0.5\<close> units thick (\<open>e1 > 0.5\<close> and \<open>2r - e1 > 0.5\<close>, which holds for every \<open>r \<ge> 1\<close>)
  two rectangles are emitted, the first from the starting edge to \<open>e1\<close> and the second
  from \<open>e1\<close> to \<open>2r\<close>, with no gap: horizontally they span \<open>[cx - r, cx - r + e1]\<close> and
  \<open>[cx - r + e1, cx + r]\<close>, vertically \<open>[cy + r - e1, cy + r]\<close> and \<open>[cy - r, cy + r - e1]\<close>.
\<close>

theorem band_composer_extents:
  assumes "0 < r"
  shows
    "(let hz = (ori = Some ''horizontal'');
          clip = [(''clip-path'', StrV (''url(#'' @ clipId @ '')''))];
          base = Element ''rect''
                   [(''x'', NumV (Fin (cx - r))), (''y'', NumV (Fin (cy - r))),
                    (''width'', NumV (Fin (2 * r))), (''height'', NumV (Fin (2 * r))),
                    (''fill'', StrV (case bc of None \<Rightarrow> ''#bbb''
                                      | Some c \<Rightarrow> if c = [] then ''#bbb'' else c))] [];
          outline = Element ''circle''
                      [(''cx'', NumV (Fin cx)), (''cy'', NumV (Fin cy)), (''r'', NumV (Fin r)),
                       (''fill'', StrV ''none''), (''stroke'', StrV ''#333''),
                       (''stroke-width'', NumV (Fin 2))] []
      in (1 / 4 < r \<longrightarrow>
            drawNode svg (Fin cx) (Fin cy) (Fin r) clipId
              (Some \<lparr>bottomUp = Some [\<lparr>bprop = Fin 1, fill = c1\<rparr>], topDown = None\<rparr>) ori bc
            = Inr (svg @
                [Element ''g'' clip
                   [base,
                    if hz then
                      Element ''rect''
                        [(''x'', NumV (Fin (cx - r))), (''y'', NumV (Fin (cy - r))),
                         (''width'', NumV (Fin (2 * r))), (''height'', NumV (Fin (2 * r))),
                         (''fill'', StrV c1)] []
                    else
                      Element ''rect''
                        [(''x'', NumV (Fin (cx - r))), (''y'', NumV (Fin (cy + r - 2 * r))),
                         (''width'', NumV (Fin (2 * r))), (''height'', NumV (Fin (2 * r))),
                         (''fill'', StrV c1)] []],
                 outline]))
       \<and> (\<exists>e1. areaToHeight (Fin (3 / 10)) (Fin r) = Fin e1
                \<and> areaToHeight (Fin 1) (Fin r) = Fin (2 * r)
                \<and> r / 2 < e1 \<and> e1 < 11 * r / 10
                \<and> (1 \<le> r \<longrightarrow> 1 / 2 < e1 \<and> 1 / 2 < 2 * r - e1)
                \<and> (1 / 2 < e1 \<and> 1 / 2 < 2 * r - e1 \<longrightarrow>
                     drawNode svg (Fin cx) (Fin cy) (Fin r) clipId
                       (Some \<lparr>bottomUp = Some [\<lparr>bprop = Fin (3 / 10), fill = c1\<rparr>,
                                                \<lparr>bprop = Fin (7 / 10), fill = c2\<rparr>],
                              topDown = None\<rparr>) ori bc
                     = Inr (svg @
                         [Element ''g'' clip
                            (base #
                             (if hz then
                                [Element ''rect''
                                   [(''x'', NumV (Fin (cx - r))), (''y'', NumV (Fin (cy - r))),
                                    (''width'', NumV (Fin e1)), (''height'', NumV (Fin (2 * r))),
                                    (''fill'', StrV c1)] [],
                                 Element ''rect''
                                   [(''x'', NumV (Fin (cx - r + e1))), (''y'', NumV (Fin (cy - r))),
                                    (''width'', NumV (Fin (2 * r - e1))), (''height'', NumV (Fin (2 * r))),
                                    (''fill'', StrV c2)] []]
                              else
                                [Element ''rect''
                                   [(''x'', NumV (Fin (cx - r))), (''y'', NumV (Fin (cy + r - e1))),
                                    (''width'', NumV (Fin (2 * r))), (''height'', NumV (Fin e1)),
                                    (''fill'', StrV c1)] [],
                                 Element ''rect''
                                   [(''x'', NumV (Fin (cx - r))), (''y'', NumV (Fin (cy + r - 2 * r))),
                                    (''width'', NumV (Fin (2 * r))), (''height'', NumV (Fin (2 * r - e1))),
                                    (''fill'', StrV c2)] []])),
                          outline]))))"
proof -
  from extent_3_10[OF assms] obtain e1 where
    e: "areaToHeight (Fin (3 / 10)) (Fin r) = Fin e1" and b: "r / 2 < e1" "e1 < 11 * r / 10"
    by blast
  have one: "1 \<le> r \<longrightarrow> 1 / 2 < e1 \<and> 1 / 2 < 2 * r - e1" using b by auto
  show ?thesis
    unfolding Let_def
  proof (intro conjI impI exI[of _ e1])
    assume "1 / 4 < r"
    from primary_single[OF this]
    show "drawNode svg (Fin cx) (Fin cy) (Fin r) clipId
              (Some \<lparr>bottomUp = Some [\<lparr>bprop = Fin 1, fill = c1\<rparr>], topDown = None\<rparr>) ori bc
            = Inr (svg @
                [Element ''g'' [(''clip-path'', StrV (''url(#'' @ clipId @ '')''))]
                   [Element ''rect''
                   [(''x'', NumV (Fin (cx - r))), (''y'', NumV (Fin (cy - r))),
                    (''width'', NumV (Fin (2 * r))), (''height'', NumV (Fin (2 * r))),
                    (''fill'', StrV (case bc of None \<Rightarrow> ''#bbb''
                                      | Some c \<Rightarrow> if c = [] then ''#bbb'' else c))] [],
                    if ori = Some ''horizontal'' then
                      Element ''rect''
                        [(''x'', NumV (Fin (cx - r))), (''y'', NumV (Fin (cy - r))),
                         (''width'', NumV (Fin (2 * r))), (''height'', NumV (Fin (2 * r))),
                         (''fill'', StrV c1)] []
                    else
                      Element ''rect''
                        [(''x'', NumV (Fin (cx - r))), (''y'', NumV (Fin (cy + r - 2 * r))),
                         (''width'', NumV (Fin (2 * r))), (''height'', NumV (Fin (2 * r))),
                         (''fill'', StrV c1)] []],
                 Element ''circle''
                      [(''cx'', NumV (Fin cx)), (''cy'', NumV (Fin cy)), (''r'', NumV (Fin r)),
                       (''fill'', StrV ''none''), (''stroke'', StrV ''#333''),
                       (''stroke-width'', NumV (Fin 2))] []])"
      by (simp add: drawNode_shape mult.commute)
  next
    show "areaToHeight (Fin (3 / 10)) (Fin r) = Fin e1" by (rule e)
    show "areaToHeight (Fin 1) (Fin r) = Fin (2 * r)" by (rule areaToHeight_one)
    show "r / 2 < e1" "e1 < 11 * r / 10" by (rule b)+
  next
    assume "1 \<le> r"
    then show "1 / 2 < e1" "1 / 2 < 2 * r - e1" using one by blast+
  next
    assume "1 / 2 < e1 \<and> 1 / 2 < 2 * r - e1"
    then have v: "1 / 2 < e1" "1 / 2 < 2 * r - e1" by blast+
    from primary_pair[OF e v]
    show "drawNode svg (Fin cx) (Fin cy) (Fin r) clipId
                       (Some \<lparr>bottomUp = Some [\<lparr>bprop = Fin (3 / 10), fill = c1\<rparr>,
                                                \<lparr>bprop = Fin (7 / 10), fill = c2\<rparr>],
                              topDown = None\<rparr>) ori bc
                     = Inr (svg @
                         [Element ''g'' [(''clip-path'', StrV (''url(#'' @ clipId @ '')''))]
                            (Element ''rect''
                   [(''x'', NumV (Fin (cx - r))), (''y'', NumV (Fin (cy - r))),
                    (''width'', NumV (Fin (2 * r))), (''height'', NumV (Fin (2 * r))),
                    (''fill'', StrV (case bc of None \<Rightarrow> ''#bbb''
                                      | Some c \<Rightarrow> if c = [] then ''#bbb'' else c))] [] #
                             (if ori = Some ''horizontal'' then
                                [Element ''rect''
                                   [(''x'', NumV (Fin (cx - r))), (''y'', NumV (Fin (cy - r))),
                                    (''width'', NumV (Fin e1)), (''height'', NumV (Fin (2 * r))),
                                    (''fill'', StrV c1)] [],
                                 Element ''rect''
                                   [(''x'', NumV (Fin (cx - r + e1))), (''y'', NumV (Fin (cy - r))),
                                    (''width'', NumV (Fin (2 * r - e1))), (''height'', NumV (Fin (2 * r))),
                                    (''fill'', StrV c2)] []]
                              else
                                [Element ''rect''
                                   [(''x'', NumV (Fin (cx - r))), (''y'', NumV (Fin (cy + r - e1))),
                                    (''width'', NumV (Fin (2 * r))), (''height'', NumV (Fin e1)),
                                    (''fill'', StrV c1)] [],
                                 Element ''rect''
                                   [(''x'', NumV (Fin (cx - r))), (''y'', NumV (Fin (cy + r - 2 * r))),
                                    (''width'', NumV (Fin (2 * r))), (''height'', NumV (Fin (2 * r - e1))),
                                    (''fill'', StrV c2)] []])),
                          Element ''circle''
                      [(''cx'', NumV (Fin cx)), (''cy'', NumV (Fin cy)), (''r'', NumV (Fin r)),
                       (''fill'', StrV ''none''), (''stroke'', StrV ''#333''),
                       (''stroke-width'', NumV (Fin 2))] []])"
      by (simp add: drawNode_shape mult.commute)
  qed
qed


theorem band_composer_extents_witness:
  "(0::real) < 10 \<and> (1::real) / 4 < 10 \<and> (1::real) \<le> 10
   \<and> drawNode [] (Fin 0) (Fin 0) (Fin 10) ''c''
        (Some \<lparr>bottomUp = Some [\<lparr>bprop = Fin 1, fill = ''red''\<rparr>], topDown = None\<rparr>) None None
      = Inr [Element ''g'' [(''clip-path'', StrV ''url(#c)'')]
               [Element ''rect''
                  [(''x'', NumV (Fin (- 10))), (''y'', NumV (Fin (- 10))),
                   (''width'', NumV (Fin 20)), (''height'', NumV (Fin 20)),
                   (''fill'', StrV ''#bbb'')] [],
                Element ''rect''
                  [(''x'', NumV (Fin (- 10))), (''y'', NumV (Fin (- 10))),
                   (''width'', NumV (Fin 20)), (''height'', NumV (Fin 20)),
                   (''fill'', StrV ''red'')] []],
             Element ''circle''
               [(''cx'', NumV (Fin 0)), (''cy'', NumV (Fin 0)), (''r'', NumV (Fin 10)),
                (''fill'', StrV ''none''), (''stroke'', StrV ''#333''),
                (''stroke-width'', NumV (Fin 2))] []]
   \<and> (\<exists>e1. areaToHeight (Fin (3 / 10)) (Fin 10) = Fin e1 \<and> 5 < e1 \<and> e1 < 11
          \<and> drawNode [] (Fin 0) (Fin 0) (Fin 10) ''c''
               (Some \<lparr>bottomUp = Some [\<lparr>bprop = Fin (3 / 10), fill = ''red''\<rparr>,
                                        \<lparr>bprop = Fin (7 / 10), fill = ''gold''\<rparr>],
                      topDown = None\<rparr>) None None
             = Inr [Element ''g'' [(''clip-path'', StrV ''url(#c)'')]
                      [Element ''rect''
                         [(''x'', NumV (Fin (- 10))), (''y'', NumV (Fin (- 10))),
                          (''width'', NumV (Fin 20)), (''height'', NumV (Fin 20)),
                          (''fill'', StrV ''#bbb'')] [],
                       Element ''rect''
                         [(''x'', NumV (Fin (- 10))), (''y'', NumV (Fin (10 - e1))),
                          (''width'', NumV (Fin 20)), (''height'', NumV (Fin e1)),
                          (''fill'', StrV ''red'')] [],
                       Element ''rect''
                         [(''x'', NumV (Fin (- 10))), (''y'', NumV (Fin (- 10))),
                          (''width'', NumV (Fin 20)), (''height'', NumV (Fin (20 - e1))),
                          (''fill'', StrV ''gold'')] []],
                    Element ''circle''
                      [(''cx'', NumV (Fin 0)), (''cy'', NumV (Fin 0)), (''r'', NumV (Fin 10)),
                       (''fill'', StrV ''none''), (''stroke'', StrV ''#333''),
                       (''stroke-width'', NumV (Fin 2))] []])"
proof -
  have pos: "(0::real) < 10" by simp
  note t = band_composer_extents[where r = 10 and ori = None and clipId = "''c''" and cx = 0
      and cy = 0 and bc = None and svg = "[]" and ?c1.0 = "''red''" and ?c2.0 = "''gold''",
      OF pos, unfolded Let_def]
  have single: "drawNode [] (Fin 0) (Fin 0) (Fin 10) ''c''
        (Some \<lparr>bottomUp = Some [\<lparr>bprop = Fin 1, fill = ''red''\<rparr>], topDown = None\<rparr>) None None
      = Inr [Element ''g'' [(''clip-path'', StrV ''url(#c)'')]
               [Element ''rect''
                  [(''x'', NumV (Fin (- 10))), (''y'', NumV (Fin (- 10))),
                   (''width'', NumV (Fin 20)), (''height'', NumV (Fin 20)),
                   (''fill'', StrV ''#bbb'')] [],
                Element ''rect''
                  [(''x'', NumV (Fin (- 10))), (''y'', NumV (Fin (- 10))),
                   (''width'', NumV (Fin 20)), (''height'', NumV (Fin 20)),
                   (''fill'', StrV ''red'')] []],
             Element ''circle''
               [(''cx'', NumV (Fin 0)), (''cy'', NumV (Fin 0)), (''r'', NumV (Fin 10)),
                (''fill'', StrV ''none''), (''stroke'', StrV ''#333''),
                (''stroke-width'', NumV (Fin 2))] []]"
    using t by simp
  have pair: "\<exists>e1. areaToHeight (Fin (3 / 10)) (Fin 10) = Fin e1 \<and> 5 < e1 \<and> e1 < 11
          \<and> drawNode [] (Fin 0) (Fin 0) (Fin 10) ''c''
               (Some \<lparr>bottomUp = Some [\<lparr>bprop = Fin (3 / 10), fill = ''red''\<rparr>,
                                        \<lparr>bprop = Fin (7 / 10), fill = ''gold''\<rparr>],
                      topDown = None\<rparr>) None None
             = Inr [Element ''g'' [(''clip-path'', StrV ''url(#c)'')]
                      [Element ''rect''
                         [(''x'', NumV (Fin (- 10))), (''y'', NumV (Fin (- 10))),
                          (''width'', NumV (Fin 20)), (''height'', NumV (Fin 20)),
                          (''fill'', StrV ''#bbb'')] [],
                       Element ''rect''
                         [(''x'', NumV (Fin (- 10))), (''y'', NumV (Fin (10 - e1))),
                          (''width'', NumV (Fin 20)), (''height'', NumV (Fin e1)),
                          (''fill'', StrV ''red'')] [],
                       Element ''rect''
                         [(''x'', NumV (Fin (- 10))), (''y'', NumV (Fin (- 10))),
                          (''width'', NumV (Fin 20)), (''height'', NumV (Fin (20 - e1))),
                          (''fill'', StrV ''gold'')] []],
                    Element ''circle''
                      [(''cx'', NumV (Fin 0)), (''cy'', NumV (Fin 0)), (''r'', NumV (Fin 10)),
                       (''fill'', StrV ''none''), (''stroke'', StrV ''#333''),
                       (''stroke-width'', NumV (Fin 2))] []]"
    using t[THEN conjunct2]
    apply (elim exE conjE)
    subgoal for e1
      apply (rule exI[of _ e1])
      apply simp
      done
    done
  show ?thesis
    by (intro conjI single pair) simp_all
qed

text \<open>
  Claim C4 as stated fails for small disks: with radius \<open>0.2\<close> the single band of
  proportion 1 has the extent \<open>0.4\<close>, which is not above \<open>0.5\<close>, and no band rectangle is
  emitted: the group holds the base fill alone.
\<close>

theorem band_composer_small_counterexample:
  "drawNode [] (Fin 0) (Fin 0) (Fin (1 / 5)) ''c''
     (Some \<lparr>bottomUp = Some [\<lparr>bprop = Fin 1, fill = ''red''\<rparr>], topDown = None\<rparr>) None None
   = Inr [Element ''g'' [(''clip-path'', StrV ''url(#c)'')]
            [Element ''rect''
               [(''x'', NumV (Fin (- 1 / 5))), (''y'', NumV (Fin (- 1 / 5))),
                (''width'', NumV (Fin (2 / 5))), (''height'', NumV (Fin (2 / 5))),
                (''fill'', StrV ''#bbb'')] []],
          Element ''circle''
            [(''cx'', NumV (Fin 0)), (''cy'', NumV (Fin 0)), (''r'', NumV (Fin (1 / 5))),
             (''fill'', StrV ''none''), (''stroke'', StrV ''#333''),
             (''stroke-width'', NumV (Fin 2))] []]"
proof -
  have "primaryLoop False (Fin 0) (Fin 0) (Fin (1 / 5)) [\<lparr>bprop = Fin 1, fill = ''red''\<rparr>]
          (Fin 0, Fin 0, []) = (Fin 1, Fin (2 / 5), [])"
    by (subst primaryLoop_small) (simp_all add: areaToHeight_one)
  then show ?thesis
    by (simp add: drawNode_shape)
qed

end
